theory Spec2Isabelle
  imports Complex_Main
begin

section \<open>The kinematic model of dbrt: \<open>KinematicsFromURDF\<close>\<close>

text \<open>
  A shallow embedding of the class \<open>KinematicsFromURDF\<close> (kinematics_from_urdf.cpp).
  Member variables keep their names without the trailing underscore (\<open>joint_map_\<close> is
  \<open>joint_map\<close>). An \<open>Eigen::VectorXd\<close> and a \<open>std::vector\<close> are lists, the
  \<open>std::map\<close> from link names to frames is a map. The joint limits and the values
  of \<open>GetRandomPertubation\<close>, which compares them, are of the type \<open>double\<close> below,
  with its infinities and NaN; the joint angles and the coordinates of the frames,
  which the class stores and hands on without comparing them, are \<open>real\<close>.
  An \<open>int\<close> index is an \<open>int\<close>; the vectors of a robot are far shorter than
  \<open>2 ^ 31\<close>, so the conversion of the unsigned loop counter to \<open>int\<close> is the identity.

  What C++ leaves undefined (an index past the end of a vector, a null pointer or a
  pointer never assigned that is dereferenced) is an error value of the model: the
  function returns \<open>Inl\<close> of it.
\<close>

datatype error = NullPointerDereference | IndexOutOfRange | UninitialisedPointer

subsection \<open>Double-precision numbers\<close>

text \<open>
  A \<open>double\<close> is a number, one of the two infinities, or NaN. The comparisons are
  those of IEEE 754: every comparison with NaN is false. Rounding and the sign of zero
  are not modelled: the difference and the product of two numbers are exact.
\<close>

datatype double = NaN | MinusInfinity | Finite real | PlusInfinity

fun double_less :: "double \<Rightarrow> double \<Rightarrow> bool" where
  "double_less (Finite x) (Finite y) = (x < y)"
| "double_less (Finite x) PlusInfinity = True"
| "double_less MinusInfinity (Finite y) = True"
| "double_less MinusInfinity PlusInfinity = True"
| "double_less _ _ = False"

definition double_greater :: "double \<Rightarrow> double \<Rightarrow> bool" where
  "double_greater a b = double_less b a"

fun double_le :: "double \<Rightarrow> double \<Rightarrow> bool" where
  "double_le NaN _ = False"
| "double_le _ NaN = False"
| "double_le MinusInfinity _ = True"
| "double_le _ PlusInfinity = True"
| "double_le (Finite x) (Finite y) = (x \<le> y)"
| "double_le _ _ = False"

fun double_minus :: "double \<Rightarrow> double \<Rightarrow> double" where
  "double_minus NaN _ = NaN"
| "double_minus _ NaN = NaN"
| "double_minus PlusInfinity PlusInfinity = NaN"
| "double_minus MinusInfinity MinusInfinity = NaN"
| "double_minus PlusInfinity _ = PlusInfinity"
| "double_minus MinusInfinity _ = MinusInfinity"
| "double_minus (Finite x) PlusInfinity = MinusInfinity"
| "double_minus (Finite x) MinusInfinity = PlusInfinity"
| "double_minus (Finite x) (Finite y) = Finite (x - y)"

fun double_times :: "double \<Rightarrow> double \<Rightarrow> double" where
  "double_times NaN _ = NaN"
| "double_times _ NaN = NaN"
| "double_times (Finite x) (Finite y) = Finite (x * y)"
| "double_times PlusInfinity (Finite y) =
     (if y = 0 then NaN else if 0 < y then PlusInfinity else MinusInfinity)"
| "double_times MinusInfinity (Finite y) =
     (if y = 0 then NaN else if 0 < y then MinusInfinity else PlusInfinity)"
| "double_times (Finite x) PlusInfinity =
     (if x = 0 then NaN else if 0 < x then PlusInfinity else MinusInfinity)"
| "double_times (Finite x) MinusInfinity =
     (if x = 0 then NaN else if 0 < x then MinusInfinity else PlusInfinity)"
| "double_times PlusInfinity PlusInfinity = PlusInfinity"
| "double_times PlusInfinity MinusInfinity = MinusInfinity"
| "double_times MinusInfinity PlusInfinity = MinusInfinity"
| "double_times MinusInfinity MinusInfinity = PlusInfinity"

subsection \<open>The libraries the class is built on\<close>

text \<open>
  KDL (frames and the recursive forward-kinematics solver) and Eigen (the approximate
  comparison of vectors) are not part of the repository. The model takes them as a
  parameter, a record of their operations on a type \<open>'f\<close> of frames:
  \<^item> \<open>frame_Identity\<close> is \<open>KDL::Frame()\<close>, the value a default-constructed frame has;
  \<^item> \<open>frame_Inverse\<close> is \<open>Frame::Inverse()\<close>, \<open>frame_mult\<close> the product of two frames;
  \<^item> \<open>frame_p\<close> reads \<open>frame.p.x(), frame.p.y(), frame.p.z()\<close>, and
    \<open>frame_GetQuaternion\<close> is \<open>frame.M.GetQuaternion(x, y, z, w)\<close>;
  \<^item> \<open>fk_pose q name\<close> is the pose the tree solver computes for the segment \<open>name\<close>
    under the joint angles \<open>q\<close>, and \<open>None\<close> where the solver reports an error (an
    unknown segment, a vector whose length is not the tree's number of joints);
  \<^item> \<open>vec_isApprox\<close> is \<open>Eigen::VectorXd::isApprox\<close>.
\<close>

record 'f library =
  frame_Identity :: 'f
  frame_Inverse :: "'f \<Rightarrow> 'f"
  frame_mult :: "'f \<Rightarrow> 'f \<Rightarrow> 'f"
  frame_p :: "'f \<Rightarrow> real \<times> real \<times> real"
  frame_GetQuaternion :: "'f \<Rightarrow> real \<times> real \<times> real \<times> real"
  fk_pose :: "real list \<Rightarrow> string \<Rightarrow> 'f option"
  vec_isApprox :: "real list \<Rightarrow> real list \<Rightarrow> bool"

text \<open>
  \<open>TreeFkSolverPos_recursive::JntToCart(q_in, p_out, segmentName)\<close> returns a status and
  writes \<open>p_out\<close> only when it succeeds: on an error the frame passed in is left as
  it was.
\<close>

definition JntToCart :: "'f library \<Rightarrow> real list \<Rightarrow> 'f \<Rightarrow> string \<Rightarrow> int \<times> 'f" where
  "JntToCart lib q_in p_out segmentName =
     (case fk_pose lib q_in segmentName of
        None \<Rightarrow> (- 1, p_out)
      | Some pose \<Rightarrow> (0, pose))"

subsection \<open>The robot description and the kinematic tree\<close>

datatype urdf_joint_type = UNKNOWN | REVOLUTE | CONTINUOUS | PRISMATIC | FLOATING | PLANAR | FIXED

record urdf_limits =
  lower :: double
  upper :: double

text \<open>\<open>limits\<close> is a shared pointer of \<open>urdf::Joint\<close>: \<open>None\<close> is the null pointer.\<close>

record urdf_joint =
  name :: string
  type :: urdf_joint_type
  limits :: "urdf_limits option"

datatype kdl_joint_type = RotAxis | RotX | RotY | RotZ | TransAxis | TransX | TransY | TransZ | JointNone

text \<open>One entry of \<open>KDL::SegmentMap\<close>: the segment, its joint and the joint's index \<open>q_nr\<close>.\<close>

record segment =
  seg_name :: string
  joint_type :: kdl_joint_type
  joint_name :: string
  q_nr :: nat

text \<open>\<open>segments\<close> lists \<open>kin_tree_.getSegments()\<close> in the order the map is iterated.\<close>

record kdl_tree =
  segments :: "segment list"
  nrOfJoints :: nat

text \<open>
  A \<open>urdf::Link\<close> with the pointer to its parent (\<open>None\<close> for the root link) and,
  for \<open>PartMeshModel\<close>, whether a mesh file could be read for it (\<open>proper_\<close>).
\<close>

datatype link = Link (link_name: string) (getParent: "link option") (proper: bool)

text \<open>
  The parsed \<open>urdf::Model\<close>: \<open>getJoint\<close> (the null pointer is \<open>None\<close>), the links in
  the order \<open>getLinks\<close> returns them, and \<open>getRoot()->name\<close>.
\<close>

record urdf_model =
  getJoint :: "string \<rightharpoonup> urdf_joint"
  getLinks :: "link list"
  root_name :: string

text \<open>
  A \<open>PartMeshModel\<close> as \<open>get_part_meshes\<close> constructs it, from the link and its index;
  its \<open>get_name()\<close> is the name of the link.
\<close>

record PartMeshModel =
  part_link :: link
  part_index :: nat

definition get_name :: "PartMeshModel \<Rightarrow> string" where
  "get_name part = link_name (part_link part)"

text \<open>An \<open>osr::PoseVector\<close>, as the orientation quaternion and the position put into it.\<close>

record PoseVector =
  pv_orientation :: "real \<times> real \<times> real \<times> real"
  pv_position :: "real list"

subsection \<open>The state of the object\<close>

text \<open>
  \<open>tree_solver_set\<close> says whether the constructor reached the line that allocates
  \<open>tree_solver_\<close>. \<open>solver_calls\<close> is the trace of the calls of \<open>JntToCart\<close>, the
  effect of a forward-kinematics run on the solver: the vector and the segment name of
  each call, oldest first.
\<close>

record 'f KinematicsFromURDF =
  urdf :: urdf_model
  rendering_root_left :: string
  rendering_root_right :: string
  cam_frame_name :: string
  kin_tree :: kdl_tree
  segment_map :: "segment list"
  joint_map :: "string list"
  lower_limit :: "double list"
  upper_limit :: "double list"
  tree_solver_set :: bool
  mesh_names :: "string list"
  jnt_array :: "real list"
  cam_frame :: 'f
  frame_map :: "string \<rightharpoonup> 'f"
  solver_calls :: "(real list \<times> string) list"

text \<open>\<open>sensor_msgs::JointState\<close>: the names and the positions are two arrays.\<close>

record JointState =
  js_name :: "string list"
  js_position :: "real list"

subsection \<open>Joint indices and the initial joint vector\<close>

text \<open>\<open>num_joints()\<close> returns \<open>kin_tree_.getNrOfJoints()\<close>.\<close>

definition num_joints :: "'f KinematicsFromURDF \<Rightarrow> nat" where
  "num_joints st = nrOfJoints (kin_tree st)"

text \<open>The loop of \<open>GetJointIndex\<close> from the index \<open>i\<close> on, over the rest of \<open>joint_map_\<close>.\<close>

fun GetJointIndex_from :: "string list \<Rightarrow> string \<Rightarrow> nat \<Rightarrow> int" where
  "GetJointIndex_from [] nm i = - 1"
| "GetJointIndex_from (x # xs) nm i =
     (if x = nm then int i else GetJointIndex_from xs nm (Suc i))"

definition GetJointIndex :: "'f KinematicsFromURDF \<Rightarrow> string \<Rightarrow> int" where
  "GetJointIndex st nm = GetJointIndex_from (joint_map st) nm 0"

text \<open>
  The loop of \<open>GetInitialJoints\<close> over \<open>angles.position\<close>; \<open>k\<close> is
  \<open>jnt - angles.position.begin()\<close>. Reading \<open>angles.name[k]\<close> past the end of the
  names and writing \<open>sample(tmp_index)\<close> past the end of the vector are undefined.
\<close>

fun GetInitialJoints_loop ::
  "'f KinematicsFromURDF \<Rightarrow> string list \<Rightarrow> real list \<Rightarrow> nat \<Rightarrow> real list \<Rightarrow> error + real list" where
  "GetInitialJoints_loop st names [] k sample = Inr sample"
| "GetInitialJoints_loop st names (jnt # rest) k sample =
     (if k < length names then
        (let tmp_index = GetJointIndex st (names ! k) in
         if tmp_index \<ge> 0 then
           (if nat tmp_index < length sample
            then GetInitialJoints_loop st names rest (Suc k) (sample[nat tmp_index := jnt])
            else Inl IndexOutOfRange)
         else GetInitialJoints_loop st names rest (Suc k) sample)
      else Inl IndexOutOfRange)"

text \<open>
  \<open>Eigen::VectorXd sample(num_joints())\<close> allocates the vector without initialising it:
  \<open>uninit i\<close> is the value the memory holds at index \<open>i\<close>. The result is the vector
  \<open>samples\<close> with the one sample pushed.
\<close>

definition GetInitialJoints ::
  "'f KinematicsFromURDF \<Rightarrow> (nat \<Rightarrow> real) \<Rightarrow> JointState \<Rightarrow> error + real list list" where
  "GetInitialJoints st uninit angles =
     (case GetInitialJoints_loop st (js_name angles) (js_position angles) 0
             (map uninit [0..<num_joints st]) of
        Inl e \<Rightarrow> Inl e
      | Inr sample \<Rightarrow> Inr [sample])"

subsection \<open>Random perturbation of a joint angle\<close>

text \<open>\<open>v[i]\<close> of a \<open>std::vector\<close> for an \<open>int\<close> index.\<close>

definition vector_at :: "'a list \<Rightarrow> int \<Rightarrow> error + 'a" where
  "vector_at v i = (if 0 \<le> i \<and> nat i < length v then Inr (v ! nat i) else Inl IndexOutOfRange)"

text \<open>
  \<open>normal mean std\<close> is the value \<open>boost::normal_distribution<double>(mean, std)\<close> draws
  from \<open>generator_\<close>: any function, so every draw is covered, NaN and the infinities
  among them, and so is every rounding of \<open>range\<close> and \<open>std\<close>, which reach the result
  through the draw only.
\<close>

definition GetRandomPertubation ::
  "'f KinematicsFromURDF \<Rightarrow> (double \<Rightarrow> double \<Rightarrow> double) \<Rightarrow> int \<Rightarrow> double \<Rightarrow> double
     \<Rightarrow> error + double" where
  "GetRandomPertubation st normal jnt_index jnt_angle ratio =
     (case vector_at (upper_limit st) jnt_index of
        Inl e \<Rightarrow> Inl e
      | Inr up \<Rightarrow>
         (case vector_at (lower_limit st) jnt_index of
            Inl e \<Rightarrow> Inl e
          | Inr lo \<Rightarrow>
             (let mean = jnt_angle;
                  range = double_minus up lo;
                  std = double_times ratio range;
                  val = normal mean std;
                  val = (if double_greater val up then up else val);
                  val = (if double_less val lo then lo else val)
              in Inr val)))"

subsection \<open>The constructor\<close>

text \<open>
  The loop over \<open>segment_map_\<close>, on the three vectors \<open>joint_map_\<close>, \<open>lower_limit_\<close>
  and \<open>upper_limit_\<close>. Where \<open>getJoint\<close> returns the null pointer, the argument
  \<open>joint->name.c_str()\<close> of \<open>ROS_FATAL\<close> dereferences it before the \<open>return\<close> is
  reached; \<open>joint->limits->lower\<close> dereferences \<open>limits\<close> unchecked.
\<close>

fun KinematicsFromURDF_loop ::
  "urdf_model \<Rightarrow> segment list \<Rightarrow> string list \<times> double list \<times> double list
     \<Rightarrow> error + string list \<times> double list \<times> double list" where
  "KinematicsFromURDF_loop u [] acc = Inr acc"
| "KinematicsFromURDF_loop u (seg # segs) (jm, lo, up) =
     (if joint_type seg \<noteq> JointNone then
        (case getJoint u (joint_name seg) of
           None \<Rightarrow> Inl NullPointerDereference
         | Some joint \<Rightarrow>
            (if type joint \<noteq> UNKNOWN \<and> type joint \<noteq> FIXED then
               (if q_nr seg < length jm then
                  (case limits joint of
                     None \<Rightarrow> Inl NullPointerDereference
                   | Some jlimits \<Rightarrow>
                      (if q_nr seg < length lo \<and> q_nr seg < length up then
                         KinematicsFromURDF_loop u segs
                           (jm[q_nr seg := name joint],
                            lo[q_nr seg := lower jlimits],
                            up[q_nr seg := upper jlimits])
                       else Inl IndexOutOfRange))
                else Inl IndexOutOfRange)
             else KinematicsFromURDF_loop u segs (jm, lo, up)))
      else KinematicsFromURDF_loop u segs (jm, lo, up))"

text \<open>The members as the initialiser list and the default constructors leave them.\<close>

definition initial_members ::
  "'f library \<Rightarrow> urdf_model \<Rightarrow> kdl_tree \<Rightarrow> string \<Rightarrow> string \<Rightarrow> string \<Rightarrow> 'f KinematicsFromURDF" where
  "initial_members lib u tree left right camera_frame_id =
     \<lparr> urdf = u,
       rendering_root_left = left,
       rendering_root_right = right,
       cam_frame_name = camera_frame_id,
       kin_tree = tree,
       segment_map = [],
       joint_map = [],
       lower_limit = [],
       upper_limit = [],
       tree_solver_set = False,
       mesh_names = [],
       jnt_array = [],
       cam_frame = frame_Identity lib,
       frame_map = Map.empty,
       solver_calls = [] \<rparr>"

text \<open>
  The constructor, from the parsed robot description \<open>u\<close> and from what
  \<open>kdl_parser::treeFromUrdfModel\<close> returned (\<open>tree_ok\<close>) and left in \<open>kin_tree_\<close>
  (\<open>tree\<close>). When the parser fails the constructor returns early, with
  \<open>tree_solver_\<close> never assigned. \<open>resize\<close> fills the vectors with empty strings and
  zeros.
\<close>

definition KinematicsFromURDF_ctor ::
  "'f library \<Rightarrow> urdf_model \<Rightarrow> bool \<Rightarrow> kdl_tree \<Rightarrow> string \<Rightarrow> string \<Rightarrow> string
     \<Rightarrow> error + 'f KinematicsFromURDF" where
  "KinematicsFromURDF_ctor lib u tree_ok tree left right camera_frame_id =
     (let st = initial_members lib u tree left right camera_frame_id in
      if \<not> tree_ok then Inr st
      else
        (let n = nrOfJoints tree in
         case KinematicsFromURDF_loop u (segments tree)
                (replicate n [], replicate n (Finite 0), replicate n (Finite 0)) of
           Inl e \<Rightarrow> Inl e
         | Inr (jm, lo, up) \<Rightarrow>
            Inr (st\<lparr> segment_map := segments tree,
                     joint_map := jm,
                     lower_limit := lo,
                     upper_limit := up,
                     tree_solver_set := True \<rparr>)))"

subsection \<open>Loading the part meshes\<close>

text \<open>
  The \<open>while\<close> loop of \<open>get_part_meshes\<close> on \<open>tmp_link\<close>; \<open>compare(...) == 0\<close> is
  equality of the strings. \<open>getParent()\<close> of the root link is the null pointer, and the
  next test of the condition reads its name.
\<close>

fun ancestor_walk :: "string \<Rightarrow> string \<Rightarrow> string \<Rightarrow> link \<Rightarrow> error + link" where
  "ancestor_walk left right global_root (Link nm parent pr) =
     (if nm = left \<and> nm = right \<and> nm = global_root
      then (case parent of
              None \<Rightarrow> Inl NullPointerDereference
            | Some tmp_link \<Rightarrow> ancestor_walk left right global_root tmp_link)
      else Inr (Link nm parent pr))"

text \<open>The \<open>for\<close> loop over the links, from index \<open>i\<close> on.\<close>

fun get_part_meshes_loop ::
  "string \<Rightarrow> string \<Rightarrow> string \<Rightarrow> link list \<Rightarrow> nat \<Rightarrow> PartMeshModel list \<times> string list
     \<Rightarrow> error + PartMeshModel list \<times> string list" where
  "get_part_meshes_loop left right global_root [] i acc = Inr acc"
| "get_part_meshes_loop left right global_root (lk # links) i (part_meshes, names) =
     (case ancestor_walk left right global_root lk of
        Inl e \<Rightarrow> Inl e
      | Inr tmp_link \<Rightarrow>
         (if link_name tmp_link = global_root
          then get_part_meshes_loop left right global_root links (Suc i) (part_meshes, names)
          else
            (let part = \<lparr> part_link = lk, part_index = i \<rparr> in
             if proper lk
             then get_part_meshes_loop left right global_root links (Suc i)
                    (part_meshes @ [part], names @ [get_name part])
             else get_part_meshes_loop left right global_root links (Suc i)
                    (part_meshes, names))))"

text \<open>\<open>get_part_meshes\<close> appends to its argument \<open>part_meshes\<close> and to \<open>mesh_names_\<close>.\<close>

definition get_part_meshes ::
  "'f KinematicsFromURDF \<Rightarrow> PartMeshModel list
     \<Rightarrow> error + 'f KinematicsFromURDF \<times> PartMeshModel list" where
  "get_part_meshes st part_meshes =
     (case get_part_meshes_loop (rendering_root_left st) (rendering_root_right st)
             (root_name (urdf st)) (getLinks (urdf st)) 0 (part_meshes, mesh_names st) of
        Inl e \<Rightarrow> Inl e
      | Inr (part_meshes', names') \<Rightarrow> Inr (st\<lparr> mesh_names := names' \<rparr>, part_meshes'))"

subsection \<open>Forward kinematics\<close>

text \<open>
  The loop of \<open>ComputeLinkTransforms\<close> over \<open>segment_map_\<close>. The local \<open>frame\<close> is
  default-constructed in each round, so the solver's \<open>p_out\<close> starts as the identity.
\<close>

fun ComputeLinkTransforms_loop ::
  "'f library \<Rightarrow> segment list \<Rightarrow> 'f KinematicsFromURDF \<Rightarrow> 'f KinematicsFromURDF" where
  "ComputeLinkTransforms_loop lib [] st = st"
| "ComputeLinkTransforms_loop lib (seg # segs) st =
     (if seg_name seg \<in> set (mesh_names st) then
        (let (status, frame) =
               JntToCart lib (jnt_array st) (frame_Identity lib) (seg_name seg)
         in ComputeLinkTransforms_loop lib segs
              (st\<lparr> frame_map := (frame_map st)(seg_name seg \<mapsto> frame_mult lib (cam_frame st) frame),
                    solver_calls := solver_calls st @ [(jnt_array st, seg_name seg)] \<rparr>))
      else ComputeLinkTransforms_loop lib segs st)"

text \<open>
  \<open>ComputeLinkTransforms\<close> calls the solver through \<open>tree_solver_\<close>. The solver's
  \<open>p_out\<close> for the camera is the member \<open>cam_frame_\<close> itself, inverted afterwards
  whatever the status was.
\<close>

definition ComputeLinkTransforms ::
  "'f library \<Rightarrow> 'f KinematicsFromURDF \<Rightarrow> error + 'f KinematicsFromURDF" where
  "ComputeLinkTransforms lib st =
     (if \<not> tree_solver_set st then Inl UninitialisedPointer
      else
        (let (status, frame) =
               JntToCart lib (jnt_array st) (cam_frame st) (cam_frame_name st)
         in Inr (ComputeLinkTransforms_loop lib (segment_map st)
                   (st\<lparr> cam_frame := frame_Inverse lib frame,
                         solver_calls := solver_calls st @ [(jnt_array st, cam_frame_name st)] \<rparr>))))"

definition set_joint_angles ::
  "'f library \<Rightarrow> 'f KinematicsFromURDF \<Rightarrow> real list \<Rightarrow> error + 'f KinematicsFromURDF" where
  "set_joint_angles lib st joint_state =
     (if length (jnt_array st) = 0 \<or> \<not> vec_isApprox lib (jnt_array st) joint_state
      then ComputeLinkTransforms lib (st\<lparr> jnt_array := joint_state \<rparr>)
      else Inr st)"

subsection \<open>Reading the link poses\<close>

text \<open>
  \<open>frame_map_[key]\<close>: \<open>std::map::operator[]\<close> inserts a default-constructed frame under
  a key that is not in the map and returns a reference to the entry.
\<close>

definition frame_map_at :: "'f library \<Rightarrow> 'f KinematicsFromURDF \<Rightarrow> string \<Rightarrow> 'f KinematicsFromURDF \<times> 'f" where
  "frame_map_at lib st key =
     (case frame_map st key of
        None \<Rightarrow> (st\<lparr> frame_map := (frame_map st)(key \<mapsto> frame_Identity lib) \<rparr>, frame_Identity lib)
      | Some frame \<Rightarrow> (st, frame))"

definition get_link_position ::
  "'f library \<Rightarrow> 'f KinematicsFromURDF \<Rightarrow> int \<Rightarrow> error + 'f KinematicsFromURDF \<times> real list" where
  "get_link_position lib st idx =
     (case vector_at (mesh_names st) idx of
        Inl e \<Rightarrow> Inl e
      | Inr nm \<Rightarrow>
         (let (st', frame) = frame_map_at lib st nm;
              (x, y, z) = frame_p lib frame
          in Inr (st', [x, y, z])))"

definition get_link_orientation ::
  "'f library \<Rightarrow> 'f KinematicsFromURDF \<Rightarrow> int
     \<Rightarrow> error + 'f KinematicsFromURDF \<times> (real \<times> real \<times> real \<times> real)" where
  "get_link_orientation lib st idx =
     (case vector_at (mesh_names st) idx of
        Inl e \<Rightarrow> Inl e
      | Inr nm \<Rightarrow>
         (let (st', frame) = frame_map_at lib st nm
          in Inr (st', frame_GetQuaternion lib frame)))"

definition get_link_pose ::
  "'f library \<Rightarrow> 'f KinematicsFromURDF \<Rightarrow> int \<Rightarrow> error + 'f KinematicsFromURDF \<times> PoseVector" where
  "get_link_pose lib st index =
     (case get_link_orientation lib st index of
        Inl e \<Rightarrow> Inl e
      | Inr (st1, quat) \<Rightarrow>
         (case get_link_position lib st1 index of
            Inl e \<Rightarrow> Inl e
          | Inr (st2, pos) \<Rightarrow> Inr (st2, \<lparr> pv_orientation = quat, pv_position = pos \<rparr>)))"

subsection \<open>Definitions used to state the properties\<close>

text \<open>
  The loop of \<open>GetInitialJoints\<close> run on the list of the (name, angle) pairs of the
  observation; \<open>GetInitialJoints_loop\<close> is shown below to compute the same.
\<close>

fun apply_pairs :: "'f KinematicsFromURDF \<Rightarrow> (string \<times> real) list \<Rightarrow> real list \<Rightarrow> error + real list" where
  "apply_pairs st [] sample = Inr sample"
| "apply_pairs st ((nm, jnt) # rest) sample =
     (if GetJointIndex st nm \<ge> 0 then
        (if nat (GetJointIndex st nm) < length sample
         then apply_pairs st rest (sample[nat (GetJointIndex st nm) := jnt])
         else Inl IndexOutOfRange)
      else apply_pairs st rest sample)"

text \<open>The observation without the pairs whose name is not in \<open>joint_map_\<close>.\<close>

definition drop_unknown :: "'f KinematicsFromURDF \<Rightarrow> JointState \<Rightarrow> JointState" where
  "drop_unknown st angles =
     (let known = filter (\<lambda>(nm, jnt). nm \<in> set (joint_map st))
                    (zip (js_name angles) (js_position angles))
      in \<lparr> js_name = map fst known, js_position = map snd known \<rparr>)"

text \<open>
  A segment whose joint the constructor records: the joint of the tree is not
  \<open>KDL::Joint::None\<close> and the joint of the robot description is neither \<open>UNKNOWN\<close> nor
  \<open>FIXED\<close>. A segment with a joint that lacks its definition: the joint of the tree is
  not \<open>None\<close>, and the robot description has no joint of that name, or has one that is
  neither \<open>UNKNOWN\<close> nor \<open>FIXED\<close> and has no limits.
\<close>

definition recorded :: "urdf_model \<Rightarrow> segment \<Rightarrow> bool" where
  "recorded u seg =
     (joint_type seg \<noteq> JointNone \<and>
      (case getJoint u (joint_name seg) of
         None \<Rightarrow> False
       | Some joint \<Rightarrow> type joint \<noteq> UNKNOWN \<and> type joint \<noteq> FIXED))"

definition lacks_definition :: "urdf_model \<Rightarrow> segment \<Rightarrow> bool" where
  "lacks_definition u seg =
     (joint_type seg \<noteq> JointNone \<and>
      (case getJoint u (joint_name seg) of
         None \<Rightarrow> True
       | Some joint \<Rightarrow> type joint \<noteq> UNKNOWN \<and> type joint \<noteq> FIXED \<and> limits joint = None))"

text \<open>
  The parts \<open>get_part_meshes\<close> is described to produce: one for each link with a
  proper mesh whose name is not the global root's, with the link's index.
\<close>

definition parts_of_links :: "string \<Rightarrow> nat \<Rightarrow> link list \<Rightarrow> PartMeshModel list" where
  "parts_of_links global_root i links =
     map (\<lambda>(j, lk). \<lparr> part_link = lk, part_index = j \<rparr>)
       (filter (\<lambda>(j, lk). link_name lk \<noteq> global_root \<and> proper lk) (enumerate i links))"

subsection \<open>Two small robots\<close>

text \<open>
  Frames that are translations only: the product adds, the inverse negates, the
  rotation is always the identity, whose quaternion is \<open>(0, 0, 0, 1)\<close>.
  \<open>eigen_isApprox\<close> is the comparison Eigen documents for \<open>isApprox\<close> with the default
  precision of \<open>double\<close>: the squared norm of the difference is at most the squared
  precision times the smaller of the two squared norms.
\<close>

definition eigen_isApprox :: "real list \<Rightarrow> real list \<Rightarrow> bool" where
  "eigen_isApprox a b =
     (sum_list (map (\<lambda>(x, y). (x - y)\<^sup>2) (zip a b))
        \<le> (1 / 10 ^ 12)\<^sup>2 * min (sum_list (map (\<lambda>x. x\<^sup>2) a)) (sum_list (map (\<lambda>x. x\<^sup>2) b)))"

text \<open>
  The tree of both robots: a base, a camera mounted one unit above it, and an arm that
  slides along the first axis by the sum of the joint angles. The robot with \<open>n = 1\<close>
  has the one joint \<open>slide\<close>; in the robot with \<open>n = 0\<close> the arm is fixed.
\<close>

definition robot_fk :: "nat \<Rightarrow> real list \<Rightarrow> string \<Rightarrow> (real \<times> real \<times> real) option" where
  "robot_fk n q segmentName =
     (if length q \<noteq> n then None
      else if segmentName = ''base'' then Some (0, 0, 0)
      else if segmentName = ''camera'' then Some (0, 0, 1)
      else if segmentName = ''arm'' then Some (sum_list q, 0, 0)
      else None)"

definition robot_lib :: "nat \<Rightarrow> (real \<times> real \<times> real) library" where
  "robot_lib n =
     \<lparr> frame_Identity = (0, 0, 0),
       frame_Inverse = (\<lambda>(x, y, z). (- x, - y, - z)),
       frame_mult = (\<lambda>(x, y, z) (x', y', z'). (x + x', y + y', z + z')),
       frame_p = (\<lambda>f. f),
       frame_GetQuaternion = (\<lambda>f. (0, 0, 0, 1)),
       fk_pose = robot_fk n,
       vec_isApprox = eigen_isApprox \<rparr>"

definition base_link :: link where
  "base_link = Link ''base'' None False"

definition arm_link :: link where
  "arm_link = Link ''arm'' (Some base_link) True"

definition camera_link :: link where
  "camera_link = Link ''camera'' (Some base_link) False"

definition slider_urdf :: urdf_model where
  "slider_urdf =
     \<lparr> getJoint = [''slide'' \<mapsto> \<lparr> name = ''slide'', type = PRISMATIC,
                                   limits = Some \<lparr> lower = Finite (- 1), upper = Finite 1 \<rparr> \<rparr>,
                    ''cam_mount'' \<mapsto> \<lparr> name = ''cam_mount'', type = FIXED, limits = None \<rparr>],
       getLinks = [arm_link, base_link, camera_link],
       root_name = ''base'' \<rparr>"

definition slider_tree :: kdl_tree where
  "slider_tree =
     \<lparr> segments =
         [\<lparr> seg_name = ''arm'', joint_type = TransAxis, joint_name = ''slide'', q_nr = 0 \<rparr>,
          \<lparr> seg_name = ''base'', joint_type = JointNone, joint_name = ''NoName'', q_nr = 0 \<rparr>,
          \<lparr> seg_name = ''camera'', joint_type = JointNone, joint_name = ''cam_mount'', q_nr = 0 \<rparr>],
       nrOfJoints = 1 \<rparr>"

text \<open>The slider as the constructor builds it, and after \<open>get_part_meshes\<close>.\<close>

definition slider_built :: "(real \<times> real \<times> real) KinematicsFromURDF" where
  "slider_built =
     \<lparr> urdf = slider_urdf,
       rendering_root_left = ''arm'',
       rendering_root_right = ''arm'',
       cam_frame_name = ''camera'',
       kin_tree = slider_tree,
       segment_map = segments slider_tree,
       joint_map = [''slide''],
       lower_limit = [Finite (- 1)],
       upper_limit = [Finite 1],
       tree_solver_set = True,
       mesh_names = [],
       jnt_array = [],
       cam_frame = (0, 0, 0),
       frame_map = Map.empty,
       solver_calls = [] \<rparr>"

definition slider :: "(real \<times> real \<times> real) KinematicsFromURDF" where
  "slider = slider_built\<lparr> mesh_names := [''arm''] \<rparr>"

text \<open>The slider after \<open>set_joint_angles\<close> with the angle 1.\<close>

definition slider_at_1 :: "(real \<times> real \<times> real) KinematicsFromURDF" where
  "slider_at_1 =
     slider\<lparr> jnt_array := [1],
             cam_frame := (0, 0, - 1),
             frame_map := [''arm'' \<mapsto> (1, 0, - 1)],
             solver_calls := [([1], ''camera''), ([1], ''arm'')] \<rparr>"

text \<open>The robot without joints: the arm is mounted by a fixed joint.\<close>

definition rigid_tree :: kdl_tree where
  "rigid_tree =
     \<lparr> segments =
         [\<lparr> seg_name = ''arm'', joint_type = JointNone, joint_name = ''arm_mount'', q_nr = 0 \<rparr>,
          \<lparr> seg_name = ''base'', joint_type = JointNone, joint_name = ''NoName'', q_nr = 0 \<rparr>,
          \<lparr> seg_name = ''camera'', joint_type = JointNone, joint_name = ''cam_mount'', q_nr = 0 \<rparr>],
       nrOfJoints = 0 \<rparr>"

definition rigid :: "(real \<times> real \<times> real) KinematicsFromURDF" where
  "rigid =
     \<lparr> urdf = slider_urdf,
       rendering_root_left = ''arm'',
       rendering_root_right = ''arm'',
       cam_frame_name = ''camera'',
       kin_tree = rigid_tree,
       segment_map = segments rigid_tree,
       joint_map = [],
       lower_limit = [],
       upper_limit = [],
       tree_solver_set = True,
       mesh_names = [''arm''],
       jnt_array = [],
       cam_frame = (0, 0, 0),
       frame_map = Map.empty,
       solver_calls = [] \<rparr>"

text \<open>The robot without joints after \<open>set_joint_angles\<close> with the empty vector.\<close>

definition rigid_at_rest :: "(real \<times> real \<times> real) KinematicsFromURDF" where
  "rigid_at_rest =
     rigid\<lparr> cam_frame := (0, 0, - 1),
            frame_map := [''arm'' \<mapsto> (0, 0, - 1)],
            solver_calls := [([], ''camera''), ([], ''arm'')] \<rparr>"

section \<open>Properties\<close>

subsection \<open>The two robots, built and run\<close>

lemma slider_ctor:
  "KinematicsFromURDF_ctor (robot_lib 1) slider_urdf True slider_tree ''arm'' ''arm'' ''camera''
     = Inr slider_built"
  by (simp add: KinematicsFromURDF_ctor_def initial_members_def slider_built_def slider_tree_def
      slider_urdf_def robot_lib_def Let_def)

lemma slider_meshes:
  "get_part_meshes slider_built [] = Inr (slider, [\<lparr> part_link = arm_link, part_index = 0 \<rparr>])"
  by (simp add: get_part_meshes_def slider_def slider_built_def slider_urdf_def arm_link_def
      base_link_def camera_link_def get_name_def)

lemma slider_set_1:
  "set_joint_angles (robot_lib 1) slider [1] = Inr slider_at_1"
  by (simp add: set_joint_angles_def ComputeLinkTransforms_def JntToCart_def slider_def
      slider_built_def slider_at_1_def slider_tree_def robot_lib_def robot_fk_def)

lemmas slider_simps = slider_def slider_built_def slider_tree_def num_joints_def GetJointIndex_def

lemmas robot_simps = robot_lib_def robot_fk_def eigen_isApprox_def

lemma rigid_set:
  "set_joint_angles (robot_lib 0) rigid [] = Inr rigid_at_rest"
  by (simp add: set_joint_angles_def ComputeLinkTransforms_def JntToCart_def rigid_def
      rigid_at_rest_def rigid_tree_def robot_simps)

lemma rigid_ctor:
  "\<exists>st. KinematicsFromURDF_ctor (robot_lib 0) slider_urdf True rigid_tree ''arm'' ''arm'' ''camera'' = Inr st
        \<and> get_part_meshes st [] = Inr (rigid, [\<lparr> part_link = arm_link, part_index = 0 \<rparr>])"
  by (simp add: KinematicsFromURDF_ctor_def initial_members_def rigid_def rigid_tree_def
      slider_urdf_def robot_lib_def Let_def get_part_meshes_def arm_link_def base_link_def
      camera_link_def get_name_def)

lemma slider_nearly_1:
  "vec_isApprox (robot_lib 1) (jnt_array slider_at_1) [1 + 1 / 10 ^ 13]"
  by (simp add: slider_at_1_def robot_simps)

subsection \<open>The random perturbation stays between the limits\<close>

lemma vector_at_Inr:
  "0 \<le> i \<Longrightarrow> nat i < length v \<Longrightarrow> vector_at v i = Inr (v ! nat i)"
  by (simp add: vector_at_def)

lemma double_clip:
  assumes "double_le lo up" and "val \<noteq> NaN"
  shows "double_le lo (if double_less (if double_greater val up then up else val) lo then lo
                       else (if double_greater val up then up else val))
       \<and> double_le (if double_less (if double_greater val up then up else val) lo then lo
                    else (if double_greater val up then up else val)) up"
  using assms by (cases lo; cases up; cases val) (auto simp: double_greater_def)

text \<open>
  Claim C3, as the code has it. For a joint index \<open>jnt_index\<close> of the two limit vectors
  whose lower limit is at most its upper limit, \<open>GetRandomPertubation\<close> returns a value
  between the two limits, for every current angle, every ratio (those in \<open>[0, 1]\<close> among
  them) and every value \<open>normal\<close> draws that is not NaN.
\<close>

theorem GetRandomPertubation_in_limits:
  assumes "0 \<le> jnt_index"
    and "nat jnt_index < length (lower_limit st)"
    and "nat jnt_index < length (upper_limit st)"
    and "double_le (lower_limit st ! nat jnt_index) (upper_limit st ! nat jnt_index)"
    and "normal jnt_angle
           (double_times ratio
              (double_minus (upper_limit st ! nat jnt_index) (lower_limit st ! nat jnt_index)))
           \<noteq> NaN"
  shows "\<exists>val. GetRandomPertubation st normal jnt_index jnt_angle ratio = Inr val
           \<and> double_le (lower_limit st ! nat jnt_index) val
           \<and> double_le val (upper_limit st ! nat jnt_index)"
  using assms(1-3) double_clip [OF assms(4,5)]
  by (simp add: GetRandomPertubation_def vector_at_Inr Let_def)

theorem GetRandomPertubation_in_limits_witness:
  "(0::int) \<le> 0
   \<and> nat 0 < length (lower_limit slider) \<and> nat 0 < length (upper_limit slider)
   \<and> double_le (lower_limit slider ! nat 0) (upper_limit slider ! nat 0)
   \<and> double_times (Finite (1 / 4))
         (double_minus (upper_limit slider ! nat 0) (lower_limit slider ! nat 0)) = Finite (1 / 2)
   \<and> GetRandomPertubation slider (\<lambda>mean std. double_times (Finite 3) std) 0
         (Finite (1 / 2)) (Finite (1 / 4)) = Inr (Finite 1)"
proof -
  let ?normal = "\<lambda>mean std. double_times (Finite 3) std"
  have h: "(0::int) \<le> 0" "nat 0 < length (lower_limit slider)"
    "nat 0 < length (upper_limit slider)"
    "double_le (lower_limit slider ! nat 0) (upper_limit slider ! nat 0)"
    by (simp_all add: slider_def slider_built_def)
  have std: "double_times (Finite (1 / 4))
         (double_minus (upper_limit slider ! nat 0) (lower_limit slider ! nat 0)) = Finite (1 / 2)"
    by (simp add: slider_def slider_built_def)
  have draw: "?normal (Finite (1 / 2))
           (double_times (Finite (1 / 4))
              (double_minus (upper_limit slider ! nat 0) (lower_limit slider ! nat 0)))
           \<noteq> NaN"
    using std by simp
  from GetRandomPertubation_in_limits [where jnt_index = 0 and st = slider and normal = ?normal
      and jnt_angle = "Finite (1 / 2)" and ratio = "Finite (1 / 4)", OF h draw] obtain val where
    val: "GetRandomPertubation slider ?normal 0 (Finite (1 / 2)) (Finite (1 / 4)) = Inr val"
    and "double_le val (upper_limit slider ! nat 0)"
    by blast
  have "GetRandomPertubation slider ?normal 0 (Finite (1 / 2)) (Finite (1 / 4)) = Inr (Finite 1)"
    by (simp add: GetRandomPertubation_def vector_at_def slider_def slider_built_def Let_def
        double_greater_def)
  with h std show ?thesis by blast
qed

text \<open>
  Claim C3 as it is stated fails for a draw that is NaN, as a sampler around a current
  angle that is NaN gives it: both comparisons of the clipping are false, and NaN is
  returned, which is not between the limits.
\<close>

theorem GetRandomPertubation_returns_NaN:
  "double_le (lower_limit slider ! nat 0) (upper_limit slider ! nat 0)
   \<and> double_le (Finite 0) (Finite (1 / 4)) \<and> double_le (Finite (1 / 4)) (Finite 1)
   \<and> GetRandomPertubation slider (\<lambda>mean std. mean) 0 NaN (Finite (1 / 4)) = Inr NaN
   \<and> \<not> double_le (lower_limit slider ! nat 0) NaN
   \<and> \<not> double_le NaN (upper_limit slider ! nat 0)"
  by (simp add: GetRandomPertubation_def vector_at_def slider_def slider_built_def Let_def
      double_greater_def)

subsection \<open>The index of a joint name\<close>

lemma GetJointIndex_from_notin: "nm \<notin> set xs \<Longrightarrow> GetJointIndex_from xs nm i = - 1"
  by (induction xs arbitrary: i) auto

lemma GetJointIndex_from_first:
  "nm \<in> set xs \<Longrightarrow>
     \<exists>j<length xs. GetJointIndex_from xs nm i = int (i + j) \<and> xs ! j = nm \<and> (\<forall>k<j. xs ! k \<noteq> nm)"
proof (induction xs arbitrary: i)
  case Nil
  then show ?case by simp
next
  case (Cons x xs)
  show ?case
  proof (cases "x = nm")
    case True
    then show ?thesis by (intro exI [of _ 0]) simp
  next
    case False
    with Cons.prems have "nm \<in> set xs" by simp
    from Cons.IH [OF this, of "Suc i"] obtain j where j: "j < length xs"
      "GetJointIndex_from xs nm (Suc i) = int (Suc i + j)" "xs ! j = nm" "\<forall>k<j. xs ! k \<noteq> nm"
      by blast
    show ?thesis
    proof (intro exI [of _ "Suc j"] conjI allI impI)
      fix k assume "k < Suc j"
      then show "(x # xs) ! k \<noteq> nm" using False j(4) by (cases k) auto
    qed (use False j in auto)
  qed
qed

lemma GetJointIndex_first:
  assumes "nm \<in> set (joint_map st)"
  shows "0 \<le> GetJointIndex st nm \<and> nat (GetJointIndex st nm) < length (joint_map st)
         \<and> joint_map st ! nat (GetJointIndex st nm) = nm
         \<and> (\<forall>k < nat (GetJointIndex st nm). joint_map st ! k \<noteq> nm)"
  using GetJointIndex_from_first [OF assms, of 0] by (auto simp: GetJointIndex_def)

lemma GetJointIndex_minus_one: "GetJointIndex st nm = - 1 \<longleftrightarrow> nm \<notin> set (joint_map st)"
  using GetJointIndex_first [of nm st] GetJointIndex_from_notin [of nm "joint_map st" 0]
  by (auto simp: GetJointIndex_def)

lemma GetJointIndex_nonneg: "0 \<le> GetJointIndex st nm \<longleftrightarrow> nm \<in> set (joint_map st)"
proof (cases "nm \<in> set (joint_map st)")
  case True
  then show ?thesis using GetJointIndex_first [of nm st] by simp
next
  case False
  then show ?thesis using GetJointIndex_from_notin [of nm "joint_map st" 0]
    by (simp add: GetJointIndex_def)
qed

lemma GetJointIndex_inj:
  assumes "a \<in> set (joint_map st)" "b \<in> set (joint_map st)" "GetJointIndex st a = GetJointIndex st b"
  shows "a = b"
  using GetJointIndex_first [OF assms(1)] GetJointIndex_first [OF assms(2)] assms(3) by metis

lemma GetJointIndex_unique:
  assumes "distinct (joint_map st)" "j < length (joint_map st)" "joint_map st ! j = nm"
  shows "GetJointIndex st nm = int j"
proof -
  have "nm \<in> set (joint_map st)" using assms by auto
  from GetJointIndex_first [OF this] assms show ?thesis
    by (metis nth_eq_iff_index_eq int_nat_eq)
qed

subsection \<open>The initial joint vector\<close>

lemma GetInitialJoints_loop_pairs:
  "k + length ps \<le> length names \<Longrightarrow>
     GetInitialJoints_loop st names ps k sample = apply_pairs st (zip (drop k names) ps) sample"
proof (induction ps arbitrary: k sample)
  case Nil
  then show ?case by simp
next
  case (Cons p ps)
  then have k: "k < length names" and rest: "Suc k + length ps \<le> length names" by auto
  have d: "drop k names = names ! k # drop (Suc k) names"
    using k by (simp add: Cons_nth_drop_Suc)
  show ?case
    using Cons.IH [OF rest] k by (simp add: d Let_def)
qed

lemma GetInitialJoints_loop_length:
  "GetInitialJoints_loop st names ps k sample = Inr s \<Longrightarrow> length s = length sample"
proof (induction ps arbitrary: k sample)
  case Nil
  then show ?case by simp
next
  case (Cons p ps)
  from Cons.prems show ?case
    by (auto simp: Let_def split: if_splits dest: Cons.IH)
qed

lemma apply_pairs_total:
  "length (joint_map st) \<le> length sample \<Longrightarrow>
     \<exists>s. apply_pairs st pairs sample = Inr s \<and> length s = length sample"
proof (induction pairs arbitrary: sample)
  case Nil
  then show ?case by simp
next
  case (Cons a pairs)
  obtain nm jnt where a: "a = (nm, jnt)" by (cases a)
  show ?case
  proof (cases "0 \<le> GetJointIndex st nm")
    case True
    then have "nat (GetJointIndex st nm) < length sample"
      using GetJointIndex_first [of nm st] Cons.prems by (simp add: GetJointIndex_nonneg)
    then show ?thesis using True Cons.IH [of "sample[nat (GetJointIndex st nm) := jnt]"] Cons.prems
      by (simp add: a)
  next
    case False
    then show ?thesis using Cons.IH [OF Cons.prems] by (simp add: a)
  qed
qed

lemma apply_pairs_length:
  "apply_pairs st pairs sample = Inr s \<Longrightarrow> length s = length sample"
proof (induction pairs arbitrary: sample)
  case Nil
  then show ?case by simp
next
  case (Cons a pairs)
  obtain nm jnt where a: "a = (nm, jnt)" by (cases a)
  from Cons.prems show ?case
    by (auto simp: a split: if_splits dest: Cons.IH)
qed

lemma apply_pairs_filter:
  "apply_pairs st (filter (\<lambda>(nm, jnt). nm \<in> set (joint_map st)) pairs) sample
     = apply_pairs st pairs sample"
proof (induction pairs arbitrary: sample)
  case Nil
  then show ?case by simp
next
  case (Cons a pairs)
  obtain nm jnt where a: "a = (nm, jnt)" by (cases a)
  show ?case using Cons.IH by (simp add: a GetJointIndex_nonneg)
qed

lemma apply_pairs_untouched:
  "apply_pairs st pairs sample = Inr s \<Longrightarrow> i < length sample \<Longrightarrow>
     \<forall>(nm, jnt)\<in>set pairs. GetJointIndex st nm \<noteq> int i \<Longrightarrow> s ! i = sample ! i"
proof (induction pairs arbitrary: sample)
  case Nil
  then show ?case by simp
next
  case (Cons a pairs)
  obtain nm jnt where a: "a = (nm, jnt)" by (cases a)
  show ?case
  proof (cases "0 \<le> GetJointIndex st nm")
    case True
    with Cons.prems(1) have run: "apply_pairs st pairs (sample[nat (GetJointIndex st nm) := jnt]) = Inr s"
      by (simp add: a split: if_splits)
    have ne: "nat (GetJointIndex st nm) \<noteq> i" using Cons.prems(3) True by (auto simp: a)
    have "s ! i = (sample[nat (GetJointIndex st nm) := jnt]) ! i"
      using Cons.IH [OF run] Cons.prems(2,3) by simp
    then show ?thesis using ne by simp
  next
    case False
    with Cons.prems(1) have run: "apply_pairs st pairs sample = Inr s" by (simp add: a)
    show ?thesis using Cons.IH [OF run] Cons.prems(2,3) by simp
  qed
qed

lemma apply_pairs_last_write:
  "apply_pairs st pairs sample = Inr s \<Longrightarrow> m < length pairs \<Longrightarrow>
     fst (pairs ! m) \<in> set (joint_map st) \<Longrightarrow>
     \<forall>m'. m < m' \<and> m' < length pairs \<longrightarrow> fst (pairs ! m') \<noteq> fst (pairs ! m) \<Longrightarrow>
     s ! nat (GetJointIndex st (fst (pairs ! m))) = snd (pairs ! m)"
proof (induction pairs arbitrary: sample m)
  case Nil
  then show ?case by simp
next
  case (Cons a pairs)
  obtain nm jnt where a: "a = (nm, jnt)" by (cases a)
  show ?case
  proof (cases m)
    case 0
    then have known: "nm \<in> set (joint_map st)" using Cons.prems(3) by (simp add: a)
    then have idx: "0 \<le> GetJointIndex st nm" by (simp add: GetJointIndex_nonneg)
    let ?i = "nat (GetJointIndex st nm)"
    from Cons.prems(1) idx have inr: "?i < length sample"
      and run: "apply_pairs st pairs (sample[?i := jnt]) = Inr s"
      by (simp_all add: a split: if_splits)
    have later: "\<forall>(nm', jnt')\<in>set pairs. GetJointIndex st nm' \<noteq> int ?i"
    proof (clarify)
      fix nm' jnt' assume mem: "(nm', jnt') \<in> set pairs" and eq: "GetJointIndex st nm' = int ?i"
      then obtain m' where m': "m' < length pairs" "pairs ! m' = (nm', jnt')"
        by (auto simp: in_set_conv_nth)
      have "fst ((a # pairs) ! Suc m') \<noteq> fst ((a # pairs) ! m)"
        using Cons.prems(4) m'(1) 0 by auto
      then have ne: "nm' \<noteq> nm" using m'(2) 0 by (simp add: a)
      have "0 \<le> GetJointIndex st nm'" using eq by simp
      then have "nm' \<in> set (joint_map st)" by (simp add: GetJointIndex_nonneg)
      from GetJointIndex_inj [OF this known] eq idx have "nm' = nm" by simp
      with ne show False by simp
    qed
    have "s ! ?i = (sample[?i := jnt]) ! ?i"
      using apply_pairs_untouched [OF run _ later] inr by simp
    then show ?thesis using inr 0 by (simp add: a)
  next
    case (Suc m0)
    then have m0: "m0 < length pairs" "fst (pairs ! m0) \<in> set (joint_map st)"
      using Cons.prems(2,3) by auto
    have later: "\<forall>m'. m0 < m' \<and> m' < length pairs \<longrightarrow> fst (pairs ! m') \<noteq> fst (pairs ! m0)"
    proof (intro allI impI)
      fix m' assume "m0 < m' \<and> m' < length pairs"
      then have "m < Suc m' \<and> Suc m' < length (a # pairs)" using Suc by simp
      from Cons.prems(4) [rule_format, OF this] show "fst (pairs ! m') \<noteq> fst (pairs ! m0)"
        using Suc by simp
    qed
    from Cons.prems(1) obtain sample' where run: "apply_pairs st pairs sample' = Inr s"
      by (auto simp: a split: if_splits)
    from Cons.IH [OF run m0 later] show ?thesis using Suc by simp
  qed
qed

lemma GetInitialJoints_pairs:
  assumes "length (js_position angles) \<le> length (js_name angles)"
  shows "GetInitialJoints st uninit angles =
           (case apply_pairs st (zip (js_name angles) (js_position angles))
                   (map uninit [0..<num_joints st]) of
              Inl e \<Rightarrow> Inl e
            | Inr sample \<Rightarrow> Inr [sample])"
  using assms by (simp add: GetInitialJoints_def GetInitialJoints_loop_pairs)

lemma drop_unknown_pairs:
  "zip (js_name (drop_unknown st angles)) (js_position (drop_unknown st angles))
     = filter (\<lambda>(nm, jnt). nm \<in> set (joint_map st)) (zip (js_name angles) (js_position angles))"
  by (simp add: drop_unknown_def Let_def zip_map_fst_snd)

lemma drop_unknown_lengths:
  "length (js_position (drop_unknown st angles)) \<le> length (js_name (drop_unknown st angles))"
  by (simp add: drop_unknown_def Let_def)

lemma GetInitialJoints_drop_unknown:
  assumes "length (js_position angles) \<le> length (js_name angles)"
  shows "GetInitialJoints st uninit angles = GetInitialJoints st uninit (drop_unknown st angles)"
  by (simp add: GetInitialJoints_pairs [OF assms] GetInitialJoints_pairs [OF drop_unknown_lengths]
      drop_unknown_pairs apply_pairs_filter)

lemma GetInitialJoints_sample:
  assumes len: "length (js_position angles) \<le> length (js_name angles)"
    and jm: "length (joint_map st) \<le> num_joints st"
  obtains sample where "GetInitialJoints st uninit angles = Inr [sample]"
    and "apply_pairs st (zip (js_name angles) (js_position angles))
           (map uninit [0..<num_joints st]) = Inr sample"
    and "length sample = num_joints st"
proof -
  from apply_pairs_total [of st "map uninit [0..<num_joints st]"
      "zip (js_name angles) (js_position angles)"] jm
  obtain s where s: "apply_pairs st (zip (js_name angles) (js_position angles))
           (map uninit [0..<num_joints st]) = Inr s" "length s = num_joints st"
    by auto
  then have "GetInitialJoints st uninit angles = Inr [s]"
    by (simp add: GetInitialJoints_pairs [OF len])
  with s that show thesis by blast
qed

text \<open>
  Claim C5, as the code has it. For an observation with a name for each position: a name
  that is not in \<open>joint_map_\<close> has the index \<open>-1\<close>; the observation gives the same
  result as the observation without the pairs of unknown names; the vector holds the
  angle of a pair with a known name at the joint's index, when no later pair of the
  observation has the same name; and an index that no pair names keeps what the
  uninitialised vector held there.
\<close>

theorem GetInitialJoints_drops_unknown:
  assumes len: "length (js_position angles) \<le> length (js_name angles)"
    and jm: "length (joint_map st) \<le> num_joints st"
  shows "(\<forall>nm. nm \<notin> set (joint_map st) \<longrightarrow> GetJointIndex st nm = - 1)
       \<and> GetInitialJoints st uninit angles = GetInitialJoints st uninit (drop_unknown st angles)
       \<and> (\<exists>sample. GetInitialJoints st uninit angles = Inr [sample]
            \<and> (\<forall>k<length (js_position angles).
                  js_name angles ! k \<in> set (joint_map st) \<longrightarrow>
                  (\<forall>k'. k < k' \<and> k' < length (js_position angles)
                         \<longrightarrow> js_name angles ! k' \<noteq> js_name angles ! k) \<longrightarrow>
                  sample ! nat (GetJointIndex st (js_name angles ! k)) = js_position angles ! k)
            \<and> (\<forall>i<num_joints st.
                  (\<forall>k<length (js_position angles). GetJointIndex st (js_name angles ! k) \<noteq> int i)
                  \<longrightarrow> sample ! i = uninit i))"
proof (intro conjI)
  show "\<forall>nm. nm \<notin> set (joint_map st) \<longrightarrow> GetJointIndex st nm = - 1"
    by (simp add: GetJointIndex_minus_one)
  show "GetInitialJoints st uninit angles = GetInitialJoints st uninit (drop_unknown st angles)"
    by (rule GetInitialJoints_drop_unknown [OF len])
  let ?pairs = "zip (js_name angles) (js_position angles)"
  have lp: "length ?pairs = length (js_position angles)" using len by simp
  from GetInitialJoints_sample [OF len jm, of uninit] obtain sample
    where res: "GetInitialJoints st uninit angles = Inr [sample]"
      and run: "apply_pairs st ?pairs (map uninit [0..<num_joints st]) = Inr sample"
      and ls: "length sample = num_joints st"
    by blast
  have written: "sample ! nat (GetJointIndex st (js_name angles ! k)) = js_position angles ! k"
    if k: "k < length (js_position angles)" and known: "js_name angles ! k \<in> set (joint_map st)"
      and last: "\<forall>k'. k < k' \<and> k' < length (js_position angles)
                   \<longrightarrow> js_name angles ! k' \<noteq> js_name angles ! k" for k
  proof -
    have "sample ! nat (GetJointIndex st (fst (?pairs ! k))) = snd (?pairs ! k)"
    proof (rule apply_pairs_last_write [OF run])
      show "k < length ?pairs" using k lp by simp
      show "fst (?pairs ! k) \<in> set (joint_map st)" using k len known by simp
      show "\<forall>m'. k < m' \<and> m' < length ?pairs \<longrightarrow> fst (?pairs ! m') \<noteq> fst (?pairs ! k)"
        using last k len by simp
    qed
    then show ?thesis using k len by simp
  qed
  have kept: "sample ! i = uninit i"
    if i: "i < num_joints st"
      and un: "\<forall>k<length (js_position angles). GetJointIndex st (js_name angles ! k) \<noteq> int i" for i
  proof -
    have "\<forall>(nm, jnt)\<in>set ?pairs. GetJointIndex st nm \<noteq> int i"
    proof (clarify)
      fix nm jnt assume "(nm, jnt) \<in> set ?pairs" and eq: "GetJointIndex st nm = int i"
      then obtain k where "k < length ?pairs" "?pairs ! k = (nm, jnt)"
        by (auto simp: in_set_conv_nth)
      then have "k < length (js_position angles)" "js_name angles ! k = nm" using len by auto
      with un eq show False by blast
    qed
    from apply_pairs_untouched [OF run _ this] i show ?thesis by simp
  qed
  show "\<exists>sample. GetInitialJoints st uninit angles = Inr [sample]
            \<and> (\<forall>k<length (js_position angles).
                  js_name angles ! k \<in> set (joint_map st) \<longrightarrow>
                  (\<forall>k'. k < k' \<and> k' < length (js_position angles)
                         \<longrightarrow> js_name angles ! k' \<noteq> js_name angles ! k) \<longrightarrow>
                  sample ! nat (GetJointIndex st (js_name angles ! k)) = js_position angles ! k)
            \<and> (\<forall>i<num_joints st.
                  (\<forall>k<length (js_position angles). GetJointIndex st (js_name angles ! k) \<noteq> int i)
                  \<longrightarrow> sample ! i = uninit i)"
    using res written kept by blast
qed

theorem GetInitialJoints_drops_unknown_witness:
  "length (js_position \<lparr> js_name = [''ghost'', ''slide''], js_position = [5, 1 / 2] \<rparr>)
     \<le> length (js_name \<lparr> js_name = [''ghost'', ''slide''], js_position = [5, 1 / 2] \<rparr>)
   \<and> length (joint_map slider) \<le> num_joints slider
   \<and> GetJointIndex slider ''ghost'' = - 1
   \<and> GetInitialJoints slider (\<lambda>i. 7) \<lparr> js_name = [''ghost'', ''slide''], js_position = [5, 1 / 2] \<rparr>
       = GetInitialJoints slider (\<lambda>i. 7) \<lparr> js_name = [''slide''], js_position = [1 / 2] \<rparr>"
proof -
  let ?obs = "\<lparr> js_name = [''ghost'', ''slide''], js_position = [5, 1 / 2 :: real] \<rparr>"
  have len: "length (js_position ?obs) \<le> length (js_name ?obs)" by simp
  have jm: "length (joint_map slider) \<le> num_joints slider" by (simp add: slider_simps)
  have ghost: "''ghost'' \<notin> set (joint_map slider)" by (simp add: slider_simps)
  have d: "drop_unknown slider ?obs = \<lparr> js_name = [''slide''], js_position = [1 / 2] \<rparr>"
    by (simp add: drop_unknown_def slider_simps)
  from GetInitialJoints_drops_unknown [OF len jm, of "\<lambda>i. 7"] ghost d len jm
  show ?thesis by simp
qed

text \<open>
  Claim C5 as it is stated fails where a name occurs twice: the vector holds the later
  angle at the joint's index, not the angle of the first pair.
\<close>

theorem GetInitialJoints_duplicate_name:
  "''slide'' \<in> set (joint_map slider)
   \<and> GetInitialJoints slider (\<lambda>i. 0)
        \<lparr> js_name = [''slide'', ''slide''], js_position = [1 / 2, 1 / 4] \<rparr> = Inr [[1 / 4]]
   \<and> [1 / 4 :: real] ! nat (GetJointIndex slider ''slide'') \<noteq> [1 / 2, 1 / 4] ! 0"
  by (simp add: GetInitialJoints_def slider_simps)

text \<open>
  Claim C6. For an observation whose names are pairwise distinct and all in
  \<open>joint_map_\<close>, the vector holds at \<open>GetJointIndex\<close> of each name the angle of that name.
  \<open>GetJointIndex\<close> returns \<open>-1\<close> exactly for the names that are not in \<open>joint_map_\<close>,
  and for the others the smallest index that holds the name, which is the only such
  index when the names of \<open>joint_map_\<close> are distinct.
\<close>

theorem GetInitialJoints_round_trip:
  assumes len: "length (js_position angles) \<le> length (js_name angles)"
    and jm: "length (joint_map st) \<le> num_joints st"
    and dist: "distinct (js_name angles)"
    and known: "\<forall>k<length (js_position angles). js_name angles ! k \<in> set (joint_map st)"
  shows "(\<exists>sample. GetInitialJoints st uninit angles = Inr [sample]
            \<and> (\<forall>k<length (js_position angles).
                  sample ! nat (GetJointIndex st (js_name angles ! k)) = js_position angles ! k))
       \<and> (\<forall>nm. (GetJointIndex st nm = - 1 \<longleftrightarrow> nm \<notin> set (joint_map st))
            \<and> (nm \<in> set (joint_map st) \<longrightarrow>
                  0 \<le> GetJointIndex st nm
                \<and> nat (GetJointIndex st nm) < length (joint_map st)
                \<and> joint_map st ! nat (GetJointIndex st nm) = nm
                \<and> (\<forall>j<nat (GetJointIndex st nm). joint_map st ! j \<noteq> nm)
                \<and> (distinct (joint_map st) \<longrightarrow>
                      (\<forall>j<length (joint_map st). joint_map st ! j = nm
                           \<longrightarrow> GetJointIndex st nm = int j))))"
proof (intro conjI allI)
  let ?pairs = "zip (js_name angles) (js_position angles)"
  from GetInitialJoints_sample [OF len jm, of uninit] obtain sample
    where res: "GetInitialJoints st uninit angles = Inr [sample]"
      and run: "apply_pairs st ?pairs (map uninit [0..<num_joints st]) = Inr sample"
    by blast
  have "sample ! nat (GetJointIndex st (js_name angles ! k)) = js_position angles ! k"
    if k: "k < length (js_position angles)" for k
  proof -
    have "sample ! nat (GetJointIndex st (fst (?pairs ! k))) = snd (?pairs ! k)"
    proof (rule apply_pairs_last_write [OF run])
      show "k < length ?pairs" using k len by simp
      show "fst (?pairs ! k) \<in> set (joint_map st)" using k len known by simp
      show "\<forall>m'. k < m' \<and> m' < length ?pairs \<longrightarrow> fst (?pairs ! m') \<noteq> fst (?pairs ! k)"
        using dist k len by (auto simp: nth_eq_iff_index_eq)
    qed
    then show ?thesis using k len by simp
  qed
  with res show "\<exists>sample. GetInitialJoints st uninit angles = Inr [sample]
            \<and> (\<forall>k<length (js_position angles).
                  sample ! nat (GetJointIndex st (js_name angles ! k)) = js_position angles ! k)"
    by blast
next
  fix nm
  show "GetJointIndex st nm = - 1 \<longleftrightarrow> nm \<notin> set (joint_map st)"
    by (rule GetJointIndex_minus_one)
  show "nm \<in> set (joint_map st) \<longrightarrow>
                  0 \<le> GetJointIndex st nm
                \<and> nat (GetJointIndex st nm) < length (joint_map st)
                \<and> joint_map st ! nat (GetJointIndex st nm) = nm
                \<and> (\<forall>j<nat (GetJointIndex st nm). joint_map st ! j \<noteq> nm)
                \<and> (distinct (joint_map st) \<longrightarrow>
                      (\<forall>j<length (joint_map st). joint_map st ! j = nm
                           \<longrightarrow> GetJointIndex st nm = int j))"
    using GetJointIndex_first [of nm st] GetJointIndex_unique [of st _ nm] by blast
qed

theorem GetInitialJoints_round_trip_witness:
  "length (js_position \<lparr> js_name = [''slide''], js_position = [1 / 2] \<rparr>)
     \<le> length (js_name \<lparr> js_name = [''slide''], js_position = [1 / 2] \<rparr>)
   \<and> length (joint_map slider) \<le> num_joints slider
   \<and> distinct (js_name \<lparr> js_name = [''slide''], js_position = [1 / 2] \<rparr>)
   \<and> js_name \<lparr> js_name = [''slide''], js_position = [1 / 2] \<rparr> ! 0 \<in> set (joint_map slider)
   \<and> (\<exists>sample. GetInitialJoints slider (\<lambda>i. 7) \<lparr> js_name = [''slide''], js_position = [1 / 2] \<rparr>
                   = Inr [sample]
          \<and> sample ! nat (GetJointIndex slider ''slide'') = 1 / 2)
   \<and> GetJointIndex slider ''slide'' = 0"
proof -
  let ?obs = "\<lparr> js_name = [''slide''], js_position = [1 / 2 :: real] \<rparr>"
  have len: "length (js_position ?obs) \<le> length (js_name ?obs)" by simp
  have jm: "length (joint_map slider) \<le> num_joints slider" by (simp add: slider_simps)
  have dist: "distinct (js_name ?obs)" by simp
  have known: "\<forall>k<length (js_position ?obs). js_name ?obs ! k \<in> set (joint_map slider)"
    by (simp add: slider_simps)
  have d: "distinct (joint_map slider)" "joint_map slider ! 0 = ''slide''"
    "''slide'' \<in> set (joint_map slider)" "0 < length (joint_map slider)"
    by (simp_all add: slider_def slider_built_def)
  from GetInitialJoints_round_trip [OF len jm dist known, of "\<lambda>i. 7"]
  have rt: "\<exists>sample. GetInitialJoints slider (\<lambda>i. 7) ?obs = Inr [sample]
            \<and> (\<forall>k<length (js_position ?obs).
                  sample ! nat (GetJointIndex slider (js_name ?obs ! k)) = js_position ?obs ! k)"
    and idx: "\<And>j. j < length (joint_map slider) \<Longrightarrow> joint_map slider ! j = ''slide''
                \<Longrightarrow> GetJointIndex slider ''slide'' = int j"
    using d by blast+
  from idx [of 0] d have "GetJointIndex slider ''slide'' = 0" by simp
  moreover from rt have "\<exists>sample. GetInitialJoints slider (\<lambda>i. 7) ?obs = Inr [sample]
          \<and> sample ! nat (GetJointIndex slider ''slide'') = 1 / 2" by simp
  moreover have "js_name ?obs ! 0 \<in> set (joint_map slider)" using known by simp
  ultimately show ?thesis using len jm dist by blast
qed

text \<open>
  Claim C7. Every vector \<open>GetInitialJoints\<close> returns has the length \<open>num_joints()\<close>,
  whatever the observation holds; the vector has that length after every round of the
  loop; and for an observation with a name for each position, however partial and with
  whatever unknown names, the function does return such a vector.
\<close>

theorem GetInitialJoints_length:
  assumes jm: "length (joint_map st) \<le> num_joints st"
  shows "(\<forall>samples. GetInitialJoints st uninit angles = Inr samples
            \<longrightarrow> (\<forall>v\<in>set samples. length v = num_joints st))
       \<and> (\<forall>m sample. GetInitialJoints_loop st (js_name angles) (take m (js_position angles)) 0
                         (map uninit [0..<num_joints st]) = Inr sample
            \<longrightarrow> length sample = num_joints st)
       \<and> (length (js_position angles) \<le> length (js_name angles) \<longrightarrow>
            (\<exists>v. GetInitialJoints st uninit angles = Inr [v] \<and> length v = num_joints st))"
proof (intro conjI allI impI)
  fix samples assume "GetInitialJoints st uninit angles = Inr samples"
  then show "\<forall>v\<in>set samples. length v = num_joints st"
    by (auto simp: GetInitialJoints_def split: sum.splits dest: GetInitialJoints_loop_length)
next
  fix m sample
  assume "GetInitialJoints_loop st (js_name angles) (take m (js_position angles)) 0
            (map uninit [0..<num_joints st]) = Inr sample"
  from GetInitialJoints_loop_length [OF this] show "length sample = num_joints st" by simp
next
  assume len: "length (js_position angles) \<le> length (js_name angles)"
  from GetInitialJoints_sample [OF len jm, of uninit]
  show "\<exists>v. GetInitialJoints st uninit angles = Inr [v] \<and> length v = num_joints st"
    by blast
qed

theorem GetInitialJoints_length_witness:
  "length (joint_map slider) \<le> num_joints slider
   \<and> (\<exists>v. GetInitialJoints slider (\<lambda>i. 7) \<lparr> js_name = [''ghost''], js_position = [5] \<rparr> = Inr [v]
          \<and> length v = 1)"
proof -
  have jm: "length (joint_map slider) \<le> num_joints slider" by (simp add: slider_simps)
  from GetInitialJoints_length [OF jm, of "\<lambda>i. 7" "\<lparr> js_name = [''ghost''], js_position = [5] \<rparr>"]
  have "\<exists>v. GetInitialJoints slider (\<lambda>i. 7) \<lparr> js_name = [''ghost''], js_position = [5] \<rparr> = Inr [v]
          \<and> length v = num_joints slider" by simp
  then show ?thesis using jm by (simp add: slider_simps)
qed

subsection \<open>The constructor and the joints of the tree\<close>

lemma KinematicsFromURDF_loop_fails:
  "\<exists>seg\<in>set segs. lacks_definition u seg \<Longrightarrow> \<exists>e. KinematicsFromURDF_loop u segs acc = Inl e"
proof (induction segs arbitrary: acc)
  case Nil
  then show ?case by simp
next
  case (Cons seg segs)
  obtain jm lo up where acc: "acc = (jm, lo, up)" by (cases acc)
  show ?case
  proof (cases "lacks_definition u seg")
    case True
    then show ?thesis
      by (auto simp: acc lacks_definition_def split: option.splits)
  next
    case False
    with Cons.prems have "\<exists>seg\<in>set segs. lacks_definition u seg" by simp
    from Cons.IH [OF this] show ?thesis
      by (auto simp: acc split: option.splits)
  qed
qed

lemma KinematicsFromURDF_loop_records:
  assumes "\<forall>seg\<in>set segs. \<not> lacks_definition u seg"
    and "\<forall>seg\<in>set segs. recorded u seg \<longrightarrow> q_nr seg < n"
    and "distinct (map q_nr (filter (recorded u) segs))"
    and "length jm = n" "length lo = n" "length up = n"
  shows "\<exists>jm' lo' up'. KinematicsFromURDF_loop u segs (jm, lo, up) = Inr (jm', lo', up')
           \<and> length jm' = n \<and> length lo' = n \<and> length up' = n
           \<and> (\<forall>i. i \<notin> q_nr ` {seg \<in> set segs. recorded u seg}
                  \<longrightarrow> jm' ! i = jm ! i \<and> lo' ! i = lo ! i \<and> up' ! i = up ! i)
           \<and> (\<forall>seg\<in>set segs. recorded u seg \<longrightarrow>
                 (\<exists>joint jlimits. getJoint u (joint_name seg) = Some joint
                    \<and> limits joint = Some jlimits
                    \<and> jm' ! q_nr seg = name joint
                    \<and> lo' ! q_nr seg = lower jlimits
                    \<and> up' ! q_nr seg = upper jlimits))"
  using assms
proof (induction segs arbitrary: jm lo up)
  case Nil
  then show ?case by simp
next
  case (Cons seg segs)
  have tail: "\<forall>seg\<in>set segs. \<not> lacks_definition u seg"
    "\<forall>seg\<in>set segs. recorded u seg \<longrightarrow> q_nr seg < n"
    "distinct (map q_nr (filter (recorded u) segs))"
    using Cons.prems(1,2,3) by (auto split: if_splits)
  show ?case
  proof (cases "recorded u seg")
    case False
    then have step: "KinematicsFromURDF_loop u (seg # segs) (jm, lo, up)
                       = KinematicsFromURDF_loop u segs (jm, lo, up)"
      using Cons.prems(1) by (auto simp: recorded_def lacks_definition_def split: option.splits)
    have same: "{s \<in> set (seg # segs). recorded u s} = {s \<in> set segs. recorded u s}"
      using False by auto
    from Cons.IH [OF tail Cons.prems(4,5,6)] show ?thesis
      unfolding step same using False by auto
  next
    case True
    then obtain joint where joint: "joint_type seg \<noteq> JointNone"
      "getJoint u (joint_name seg) = Some joint" "type joint \<noteq> UNKNOWN" "type joint \<noteq> FIXED"
      by (auto simp: recorded_def split: option.splits)
    with Cons.prems(1) obtain jlimits where jl: "limits joint = Some jlimits"
      by (auto simp: lacks_definition_def)
    have q: "q_nr seg < n" using Cons.prems(2) True by simp
    let ?jm = "jm[q_nr seg := name joint]"
    let ?lo = "lo[q_nr seg := lower jlimits]"
    let ?up = "up[q_nr seg := upper jlimits]"
    have step: "KinematicsFromURDF_loop u (seg # segs) (jm, lo, up)
                  = KinematicsFromURDF_loop u segs (?jm, ?lo, ?up)"
      using joint jl q Cons.prems(4,5,6) by simp
    have fresh: "q_nr seg \<notin> q_nr ` {s \<in> set segs. recorded u s}"
      using Cons.prems(3) True by auto
    from Cons.IH [OF tail, of ?jm ?lo ?up] Cons.prems(4,5,6)
    obtain jm' lo' up' where res: "KinematicsFromURDF_loop u segs (?jm, ?lo, ?up) = Inr (jm', lo', up')"
      and len: "length jm' = n" "length lo' = n" "length up' = n"
      and keep: "\<And>i. i \<notin> q_nr ` {s \<in> set segs. recorded u s}
                  \<Longrightarrow> jm' ! i = ?jm ! i \<and> lo' ! i = ?lo ! i \<and> up' ! i = ?up ! i"
      and rec: "\<And>s. s \<in> set segs \<Longrightarrow> recorded u s \<Longrightarrow>
                 (\<exists>joint jlimits. getJoint u (joint_name s) = Some joint
                    \<and> limits joint = Some jlimits
                    \<and> jm' ! q_nr s = name joint
                    \<and> lo' ! q_nr s = lower jlimits
                    \<and> up' ! q_nr s = upper jlimits)"
      by auto
    have head: "jm' ! q_nr seg = name joint \<and> lo' ! q_nr seg = lower jlimits
                  \<and> up' ! q_nr seg = upper jlimits"
      using keep [OF fresh] q Cons.prems(4,5,6) by simp
    have keep': "jm' ! i = jm ! i \<and> lo' ! i = lo ! i \<and> up' ! i = up ! i"
      if "i \<notin> q_nr ` {s \<in> set (seg # segs). recorded u s}" for i
    proof -
      from that True have "i \<noteq> q_nr seg" "i \<notin> q_nr ` {s \<in> set segs. recorded u s}" by auto
      with keep [of i] show ?thesis by simp
    qed
    have rec': "\<exists>joint jlimits. getJoint u (joint_name s) = Some joint
                    \<and> limits joint = Some jlimits
                    \<and> jm' ! q_nr s = name joint
                    \<and> lo' ! q_nr s = lower jlimits
                    \<and> up' ! q_nr s = upper jlimits"
      if "s \<in> set (seg # segs)" "recorded u s" for s
    proof (cases "s = seg")
      case True
      then show ?thesis using joint jl head by simp
    next
      case False
      with that show ?thesis using rec by simp
    qed
    show ?thesis unfolding step using res len keep' rec' by blast
  qed
qed

text \<open>
  Claim C4. The tree is one \<open>kdl_parser\<close> built (\<open>tree_ok\<close>), in which the recorded
  joints have indices below the number of joints, each its own. If the joint of some
  segment lacks its definition (no joint of that name in the robot description, or a
  joint without limits), the constructor fails: it dereferences the null pointer and
  yields no object. Otherwise it returns the object, with the solver allocated, the
  three vectors of the length of the number of joints, and the name and both limits of
  every recorded joint at its index \<open>q_nr\<close>.
\<close>

theorem KinematicsFromURDF_ctor_joints:
  assumes "\<forall>seg\<in>set (segments tree). recorded u seg \<longrightarrow> q_nr seg < nrOfJoints tree"
    and "distinct (map q_nr (filter (recorded u) (segments tree)))"
  shows "((\<exists>seg\<in>set (segments tree). lacks_definition u seg) \<longrightarrow>
            (\<exists>e. KinematicsFromURDF_ctor lib u True tree left right camera_frame_id = Inl e))
       \<and> ((\<forall>seg\<in>set (segments tree). \<not> lacks_definition u seg) \<longrightarrow>
            (\<exists>st. KinematicsFromURDF_ctor lib u True tree left right camera_frame_id = Inr st
               \<and> tree_solver_set st
               \<and> num_joints st = nrOfJoints tree
               \<and> length (joint_map st) = nrOfJoints tree
               \<and> length (lower_limit st) = nrOfJoints tree
               \<and> length (upper_limit st) = nrOfJoints tree
               \<and> (\<forall>seg\<in>set (segments tree). recorded u seg \<longrightarrow>
                     (\<exists>joint jlimits. getJoint u (joint_name seg) = Some joint
                        \<and> limits joint = Some jlimits
                        \<and> joint_map st ! q_nr seg = name joint
                        \<and> lower_limit st ! q_nr seg = lower jlimits
                        \<and> upper_limit st ! q_nr seg = upper jlimits))))"
proof (intro conjI impI)
  assume "\<exists>seg\<in>set (segments tree). lacks_definition u seg"
  from KinematicsFromURDF_loop_fails [OF this] obtain e where
    "KinematicsFromURDF_loop u (segments tree)
       (replicate (nrOfJoints tree) [], replicate (nrOfJoints tree) (Finite 0), replicate (nrOfJoints tree) (Finite 0))
       = Inl e"
    by blast
  then show "\<exists>e. KinematicsFromURDF_ctor lib u True tree left right camera_frame_id = Inl e"
    by (simp add: KinematicsFromURDF_ctor_def Let_def)
next
  let ?n = "nrOfJoints tree"
  assume ok: "\<forall>seg\<in>set (segments tree). \<not> lacks_definition u seg"
  from KinematicsFromURDF_loop_records [OF ok assms, of "replicate ?n []" "replicate ?n (Finite 0)" "replicate ?n (Finite 0)"]
  obtain jm lo up where
    res: "KinematicsFromURDF_loop u (segments tree) (replicate ?n [], replicate ?n (Finite 0), replicate ?n (Finite 0))
            = Inr (jm, lo, up)"
    and len: "length jm = ?n" "length lo = ?n" "length up = ?n"
    and rec: "\<forall>seg\<in>set (segments tree). recorded u seg \<longrightarrow>
                 (\<exists>joint jlimits. getJoint u (joint_name seg) = Some joint
                    \<and> limits joint = Some jlimits
                    \<and> jm ! q_nr seg = name joint
                    \<and> lo ! q_nr seg = lower jlimits
                    \<and> up ! q_nr seg = upper jlimits)"
    by auto
  show "\<exists>st. KinematicsFromURDF_ctor lib u True tree left right camera_frame_id = Inr st
               \<and> tree_solver_set st
               \<and> num_joints st = nrOfJoints tree
               \<and> length (joint_map st) = nrOfJoints tree
               \<and> length (lower_limit st) = nrOfJoints tree
               \<and> length (upper_limit st) = nrOfJoints tree
               \<and> (\<forall>seg\<in>set (segments tree). recorded u seg \<longrightarrow>
                     (\<exists>joint jlimits. getJoint u (joint_name seg) = Some joint
                        \<and> limits joint = Some jlimits
                        \<and> joint_map st ! q_nr seg = name joint
                        \<and> lower_limit st ! q_nr seg = lower jlimits
                        \<and> upper_limit st ! q_nr seg = upper jlimits))"
    using res len rec
    by (simp add: KinematicsFromURDF_ctor_def Let_def initial_members_def num_joints_def)
qed

theorem KinematicsFromURDF_ctor_joints_witness:
  "list_all (\<lambda>seg. recorded slider_urdf seg \<longrightarrow> q_nr seg < nrOfJoints slider_tree)
     (segments slider_tree)
   \<and> distinct (map q_nr (filter (recorded slider_urdf) (segments slider_tree)))
   \<and> list_all (\<lambda>seg. \<not> lacks_definition slider_urdf seg) (segments slider_tree)
   \<and> KinematicsFromURDF_ctor (robot_lib 1) slider_urdf True slider_tree ''arm'' ''arm'' ''camera''
       = Inr slider_built
   \<and> joint_map slider_built ! 0 = ''slide''
   \<and> lower_limit slider_built ! 0 = Finite (- 1) \<and> upper_limit slider_built ! 0 = Finite 1
   \<and> list_ex (lacks_definition (slider_urdf\<lparr> getJoint := Map.empty \<rparr>)) (segments slider_tree)
   \<and> (\<exists>e. KinematicsFromURDF_ctor (robot_lib 1) (slider_urdf\<lparr> getJoint := Map.empty \<rparr>) True
             slider_tree ''arm'' ''arm'' ''camera'' = Inl e)"
proof -
  let ?u = "slider_urdf\<lparr> getJoint := Map.empty \<rparr>"
  have h1: "\<forall>seg\<in>set (segments slider_tree). recorded slider_urdf seg \<longrightarrow> q_nr seg < nrOfJoints slider_tree"
    by (simp add: slider_tree_def recorded_def slider_urdf_def)
  have h2: "distinct (map q_nr (filter (recorded slider_urdf) (segments slider_tree)))"
    by (simp add: slider_tree_def recorded_def slider_urdf_def)
  have ok: "\<forall>seg\<in>set (segments slider_tree). \<not> lacks_definition slider_urdf seg"
    by (simp add: slider_tree_def lacks_definition_def slider_urdf_def)
  have g1: "\<forall>seg\<in>set (segments slider_tree). recorded ?u seg \<longrightarrow> q_nr seg < nrOfJoints slider_tree"
    by (simp add: slider_tree_def recorded_def slider_urdf_def)
  have g2: "distinct (map q_nr (filter (recorded ?u) (segments slider_tree)))"
    by (simp add: slider_tree_def recorded_def slider_urdf_def)
  have bad: "\<exists>seg\<in>set (segments slider_tree). lacks_definition ?u seg"
    by (simp add: slider_tree_def lacks_definition_def slider_urdf_def)
  from KinematicsFromURDF_ctor_joints [OF h1 h2, of "robot_lib 1" "''arm''" "''arm''" "''camera''"] ok
  have "\<exists>st. KinematicsFromURDF_ctor (robot_lib 1) slider_urdf True slider_tree ''arm'' ''arm'' ''camera''
               = Inr st \<and> tree_solver_set st"
    by blast
  then have one: "KinematicsFromURDF_ctor (robot_lib 1) slider_urdf True slider_tree ''arm'' ''arm'' ''camera''
       = Inr slider_built"
    using slider_ctor by simp
  from KinematicsFromURDF_ctor_joints [OF g1 g2, of "robot_lib 1" "''arm''" "''arm''" "''camera''"] bad
  have two: "\<exists>e. KinematicsFromURDF_ctor (robot_lib 1) ?u True slider_tree ''arm'' ''arm'' ''camera'' = Inl e"
    by blast
  have vals: "joint_map slider_built ! 0 = ''slide''"
    "lower_limit slider_built ! 0 = Finite (- 1)" "upper_limit slider_built ! 0 = Finite 1"
    by (simp_all add: slider_built_def)
  show ?thesis using h1 h2 ok bad one two vals by (simp add: list_all_iff list_ex_iff)
qed

subsection \<open>The part meshes and the rendering roots\<close>

lemma ancestor_walk_stays:
  "\<not> (link_name lk = left \<and> link_name lk = right \<and> link_name lk = global_root) \<Longrightarrow>
     ancestor_walk left right global_root lk = Inr lk"
  by (cases lk) auto

lemma ancestor_walk_error:
  "ancestor_walk left right global_root lk = Inl e \<Longrightarrow> e = NullPointerDereference"
  by (induction left right global_root lk rule: ancestor_walk.induct)
     (auto split: if_splits option.splits)

lemma ancestor_walk_root:
  "link_name lk = global_root \<Longrightarrow> getParent lk = None \<Longrightarrow>
     ancestor_walk global_root global_root global_root lk = Inl NullPointerDereference"
  by (cases lk) auto

lemma get_part_meshes_loop_parts:
  assumes "\<not> (left = global_root \<and> right = global_root)"
  shows "get_part_meshes_loop left right global_root links i (part_meshes, names) =
           Inr (part_meshes @ parts_of_links global_root i links,
                names @ map get_name (parts_of_links global_root i links))"
proof (induction links arbitrary: i part_meshes names)
  case Nil
  then show ?case by (simp add: parts_of_links_def)
next
  case (Cons lk links)
  have walk: "ancestor_walk left right global_root lk = Inr lk"
    using assms by (intro ancestor_walk_stays) auto
  show ?case
    by (simp add: walk Cons.IH parts_of_links_def Let_def)
qed

lemma get_part_meshes_loop_root:
  assumes "\<exists>lk\<in>set links. link_name lk = global_root \<and> getParent lk = None"
  shows "get_part_meshes_loop global_root global_root global_root links i acc
           = Inl NullPointerDereference"
  using assms
proof (induction links arbitrary: i acc)
  case Nil
  then show ?case by simp
next
  case (Cons lk links)
  obtain part_meshes names where acc: "acc = (part_meshes, names)" by (cases acc)
  show ?case
  proof (cases "ancestor_walk global_root global_root global_root lk")
    case (Inl e)
    then show ?thesis using ancestor_walk_error [OF Inl] by (simp add: acc)
  next
    case (Inr tmp_link)
    then have "\<not> (link_name lk = global_root \<and> getParent lk = None)"
      using ancestor_walk_root [of lk global_root] by auto
    with Cons.prems have tail: "\<exists>lk\<in>set links. link_name lk = global_root \<and> getParent lk = None"
      by auto
    show ?thesis using Inr Cons.IH [OF tail] by (simp add: acc Let_def)
  qed
qed

text \<open>
  What \<open>get_part_meshes\<close> computes. Unless both rendering roots are the name of the
  global root, the walk to the ancestors never advances, and a part is appended for
  every link with a proper mesh whose own name is not the global root's. When both are
  the name of the global root, the walk advances from the root link to its parent, the
  null pointer, and reads its name.
\<close>

lemma get_part_meshes_rendering_roots:
  "(\<not> (rendering_root_left st = root_name (urdf st)
        \<and> rendering_root_right st = root_name (urdf st)) \<longrightarrow>
      get_part_meshes st part_meshes =
        Inr (st\<lparr> mesh_names := mesh_names st
                    @ map get_name (parts_of_links (root_name (urdf st)) 0 (getLinks (urdf st))) \<rparr>,
             part_meshes @ parts_of_links (root_name (urdf st)) 0 (getLinks (urdf st))))
   \<and> (rendering_root_left st = root_name (urdf st)
        \<and> rendering_root_right st = root_name (urdf st)
        \<and> (\<exists>lk\<in>set (getLinks (urdf st)). link_name lk = root_name (urdf st) \<and> getParent lk = None)
      \<longrightarrow> get_part_meshes st part_meshes = Inl NullPointerDereference)"
proof (intro conjI impI)
  assume "\<not> (rendering_root_left st = root_name (urdf st)
        \<and> rendering_root_right st = root_name (urdf st))"
  from get_part_meshes_loop_parts [OF this]
  show "get_part_meshes st part_meshes =
        Inr (st\<lparr> mesh_names := mesh_names st
                    @ map get_name (parts_of_links (root_name (urdf st)) 0 (getLinks (urdf st))) \<rparr>,
             part_meshes @ parts_of_links (root_name (urdf st)) 0 (getLinks (urdf st)))"
    by (simp add: get_part_meshes_def)
next
  assume "rendering_root_left st = root_name (urdf st)
        \<and> rendering_root_right st = root_name (urdf st)
        \<and> (\<exists>lk\<in>set (getLinks (urdf st)). link_name lk = root_name (urdf st) \<and> getParent lk = None)"
  then show "get_part_meshes st part_meshes = Inl NullPointerDereference"
    using get_part_meshes_loop_root [of "getLinks (urdf st)" "root_name (urdf st)" 0
        "(part_meshes, mesh_names st)"]
    by (simp add: get_part_meshes_def)
qed

lemma get_part_meshes_rendering_roots_example:
  "\<not> (rendering_root_left slider_built = root_name (urdf slider_built)
        \<and> rendering_root_right slider_built = root_name (urdf slider_built))
   \<and> get_part_meshes slider_built [] = Inr (slider, [\<lparr> part_link = arm_link, part_index = 0 \<rparr>])
   \<and> rendering_root_left (slider_built\<lparr> rendering_root_left := ''base'', rendering_root_right := ''base'' \<rparr>)
        = ''base''
   \<and> get_part_meshes (slider_built\<lparr> rendering_root_left := ''base'', rendering_root_right := ''base'' \<rparr>) []
        = Inl NullPointerDereference"
proof -
  let ?st = "slider_built\<lparr> rendering_root_left := ''base'', rendering_root_right := ''base'' \<rparr>"
  have roots: "\<not> (rendering_root_left slider_built = root_name (urdf slider_built)
        \<and> rendering_root_right slider_built = root_name (urdf slider_built))"
    by (simp add: slider_built_def slider_urdf_def)
  have parts: "parts_of_links (root_name (urdf slider_built)) 0 (getLinks (urdf slider_built))
                 = [\<lparr> part_link = arm_link, part_index = 0 \<rparr>]"
    by (simp add: parts_of_links_def slider_built_def slider_urdf_def arm_link_def base_link_def
        camera_link_def)
  have upd: "slider_built\<lparr> mesh_names := mesh_names slider_built
               @ map get_name [\<lparr> part_link = arm_link, part_index = 0 \<rparr>] \<rparr> = slider"
    by (simp add: slider_def slider_built_def get_name_def arm_link_def)
  have both: "rendering_root_left ?st = root_name (urdf ?st)
        \<and> rendering_root_right ?st = root_name (urdf ?st)
        \<and> (\<exists>lk\<in>set (getLinks (urdf ?st)). link_name lk = root_name (urdf ?st) \<and> getParent lk = None)"
    by (simp add: slider_built_def slider_urdf_def base_link_def)
  from get_part_meshes_rendering_roots [of slider_built "[]"] roots parts upd
  have one: "get_part_meshes slider_built [] = Inr (slider, [\<lparr> part_link = arm_link, part_index = 0 \<rparr>])"
    by simp
  from get_part_meshes_rendering_roots [of ?st "[]"] both
  have two: "get_part_meshes ?st [] = Inl NullPointerDereference" by blast
  show ?thesis using roots one two by simp
qed

text \<open>
  Claim C9. The claim is that \<open>get_part_meshes\<close> includes a part for every link with a
  proper mesh that is not the global root, whatever the two rendering roots are. On the
  slider with both rendering roots set to the global root \<open>base\<close>, the code does not: the
  arm has a proper mesh and is not the root, and \<open>get_part_meshes\<close> returns no part at
  all, since the walk from the root link dereferences the null parent.
\<close>

theorem get_part_meshes_both_roots_global:
  "get_part_meshes (slider_built\<lparr> rendering_root_left := ''base'', rendering_root_right := ''base'' \<rparr>) []
     = Inl NullPointerDereference
   \<and> arm_link \<in> set (getLinks (urdf slider_built)) \<and> proper arm_link
   \<and> link_name arm_link \<noteq> root_name (urdf slider_built)"
  by (simp add: get_part_meshes_def slider_built_def slider_urdf_def arm_link_def base_link_def
      camera_link_def get_name_def)

subsection \<open>Forward kinematics: the link poses\<close>

lemma ComputeLinkTransforms_loop_shape:
  "\<exists>fm sc. ComputeLinkTransforms_loop lib segs st = st\<lparr> frame_map := fm, solver_calls := sc \<rparr>"
proof (induction segs arbitrary: st)
  case Nil
  have "st = st\<lparr> frame_map := frame_map st, solver_calls := solver_calls st \<rparr>" by simp
  then show ?case by (metis ComputeLinkTransforms_loop.simps(1))
next
  case (Cons seg segs)
  show ?case
  proof (cases "seg_name seg \<in> set (mesh_names st)")
    case False
    then show ?thesis using Cons.IH [of st] by simp
  next
    case True
    obtain status frame where j: "JntToCart lib (jnt_array st) (frame_Identity lib) (seg_name seg)
                                    = (status, frame)"
      by (cases "JntToCart lib (jnt_array st) (frame_Identity lib) (seg_name seg)")
    let ?st = "st\<lparr> frame_map := (frame_map st)(seg_name seg \<mapsto> frame_mult lib (cam_frame st) frame),
                    solver_calls := solver_calls st @ [(jnt_array st, seg_name seg)] \<rparr>"
    from Cons.IH [of ?st] obtain fm sc where
      "ComputeLinkTransforms_loop lib segs ?st = ?st\<lparr> frame_map := fm, solver_calls := sc \<rparr>"
      by blast
    then have "ComputeLinkTransforms_loop lib (seg # segs) st = st\<lparr> frame_map := fm, solver_calls := sc \<rparr>"
      using True j by simp
    then show ?thesis by blast
  qed
qed

lemma ComputeLinkTransforms_loop_fields:
  "jnt_array (ComputeLinkTransforms_loop lib segs st) = jnt_array st"
  "cam_frame (ComputeLinkTransforms_loop lib segs st) = cam_frame st"
  "mesh_names (ComputeLinkTransforms_loop lib segs st) = mesh_names st"
  "segment_map (ComputeLinkTransforms_loop lib segs st) = segment_map st"
  "cam_frame_name (ComputeLinkTransforms_loop lib segs st) = cam_frame_name st"
  "tree_solver_set (ComputeLinkTransforms_loop lib segs st) = tree_solver_set st"
  using ComputeLinkTransforms_loop_shape [of lib segs st] by auto

lemma ComputeLinkTransforms_loop_frame_map:
  "frame_map (ComputeLinkTransforms_loop lib segs st) nm =
     (if nm \<in> seg_name ` set segs \<and> nm \<in> set (mesh_names st)
      then Some (frame_mult lib (cam_frame st)
                   (snd (JntToCart lib (jnt_array st) (frame_Identity lib) nm)))
      else frame_map st nm)"
proof (induction segs arbitrary: st)
  case Nil
  then show ?case by simp
next
  case (Cons seg segs)
  show ?case
  proof (cases "seg_name seg \<in> set (mesh_names st)")
    case False
    then show ?thesis using Cons.IH [of st] by auto
  next
    case True
    obtain status frame where j: "JntToCart lib (jnt_array st) (frame_Identity lib) (seg_name seg)
                                    = (status, frame)"
      by (cases "JntToCart lib (jnt_array st) (frame_Identity lib) (seg_name seg)")
    let ?st = "st\<lparr> frame_map := (frame_map st)(seg_name seg \<mapsto> frame_mult lib (cam_frame st) frame),
                    solver_calls := solver_calls st @ [(jnt_array st, seg_name seg)] \<rparr>"
    have step: "ComputeLinkTransforms_loop lib (seg # segs) st = ComputeLinkTransforms_loop lib segs ?st"
      using True j by simp
    show ?thesis unfolding step Cons.IH [of ?st] using j True by auto
  qed
qed

lemma ComputeLinkTransforms_loop_calls:
  "solver_calls (ComputeLinkTransforms_loop lib segs st) =
     solver_calls st @ map (\<lambda>seg. (jnt_array st, seg_name seg))
                        (filter (\<lambda>seg. seg_name seg \<in> set (mesh_names st)) segs)"
proof (induction segs arbitrary: st)
  case Nil
  then show ?case by simp
next
  case (Cons seg segs)
  show ?case
  proof (cases "seg_name seg \<in> set (mesh_names st)")
    case False
    then show ?thesis using Cons.IH [of st] by simp
  next
    case True
    obtain status frame where j: "JntToCart lib (jnt_array st) (frame_Identity lib) (seg_name seg)
                                    = (status, frame)"
      by (cases "JntToCart lib (jnt_array st) (frame_Identity lib) (seg_name seg)")
    let ?st = "st\<lparr> frame_map := (frame_map st)(seg_name seg \<mapsto> frame_mult lib (cam_frame st) frame),
                    solver_calls := solver_calls st @ [(jnt_array st, seg_name seg)] \<rparr>"
    have step: "ComputeLinkTransforms_loop lib (seg # segs) st = ComputeLinkTransforms_loop lib segs ?st"
      using True j by simp
    show ?thesis unfolding step Cons.IH [of ?st] using True by simp
  qed
qed

lemma JntToCart_Some: "fk_pose lib q nm = Some f \<Longrightarrow> JntToCart lib q p nm = (0, f)"
  by (simp add: JntToCart_def)

lemma set_joint_angles_noop:
  "jnt_array st \<noteq> [] \<Longrightarrow> vec_isApprox lib (jnt_array st) q \<Longrightarrow> set_joint_angles lib st q = Inr st"
  by (simp add: set_joint_angles_def)

lemma set_joint_angles_recomputes:
  assumes "tree_solver_set st"
    and "jnt_array st = [] \<or> \<not> vec_isApprox lib (jnt_array st) q"
  shows "set_joint_angles lib st q =
           Inr (ComputeLinkTransforms_loop lib (segment_map st)
                  (st\<lparr> jnt_array := q,
                        cam_frame := frame_Inverse lib (snd (JntToCart lib q (cam_frame st) (cam_frame_name st))),
                        solver_calls := solver_calls st @ [(q, cam_frame_name st)] \<rparr>))"
  using assms by (auto simp: set_joint_angles_def ComputeLinkTransforms_def split: prod.splits)

text \<open>
  Claim C1, as the code has it. When \<open>set_joint_angles(q)\<close> recomputes (no vector is
  cached, or \<open>q\<close> is not approximately the cached one) and the solver has a pose \<open>c\<close>
  for the camera frame under \<open>q\<close>, then afterwards \<open>q\<close> is cached, \<open>cam_frame_\<close> is the
  inverse of \<open>c\<close>, and the stored pose of every name of \<open>mesh_names_\<close> that is a segment
  with a pose \<open>f\<close> under \<open>q\<close> is the inverse of \<open>c\<close> times \<open>f\<close>. When \<open>q\<close> is
  approximately the cached, non-empty vector, the call changes nothing: the stored poses
  stay those of the cached vector.
\<close>

theorem set_joint_angles_link_poses:
  "(tree_solver_set st \<and> (jnt_array st = [] \<or> \<not> vec_isApprox lib (jnt_array st) q)
      \<and> fk_pose lib q (cam_frame_name st) = Some c \<longrightarrow>
      (\<exists>st'. set_joint_angles lib st q = Inr st'
         \<and> jnt_array st' = q
         \<and> cam_frame st' = frame_Inverse lib c
         \<and> mesh_names st' = mesh_names st
         \<and> (\<forall>nm\<in>set (mesh_names st). \<forall>f.
               nm \<in> seg_name ` set (segment_map st) \<and> fk_pose lib q nm = Some f \<longrightarrow>
               frame_map st' nm = Some (frame_mult lib (frame_Inverse lib c) f))))
   \<and> (jnt_array st \<noteq> [] \<and> vec_isApprox lib (jnt_array st) q \<longrightarrow>
        set_joint_angles lib st q = Inr st)"
proof (intro conjI impI)
  assume a: "tree_solver_set st \<and> (jnt_array st = [] \<or> \<not> vec_isApprox lib (jnt_array st) q)
      \<and> fk_pose lib q (cam_frame_name st) = Some c"
  let ?st0 = "st\<lparr> jnt_array := q, cam_frame := frame_Inverse lib c,
                   solver_calls := solver_calls st @ [(q, cam_frame_name st)] \<rparr>"
  let ?st' = "ComputeLinkTransforms_loop lib (segment_map st) ?st0"
  have res: "set_joint_angles lib st q = Inr ?st'"
    using a set_joint_angles_recomputes [of st lib q] by (simp add: JntToCart_Some)
  have poses: "frame_map ?st' nm = Some (frame_mult lib (frame_Inverse lib c) f)"
    if "nm \<in> set (mesh_names st)" "nm \<in> seg_name ` set (segment_map st)" "fk_pose lib q nm = Some f"
    for nm f
    using that by (simp add: ComputeLinkTransforms_loop_frame_map JntToCart_Some)
  show "\<exists>st'. set_joint_angles lib st q = Inr st'
         \<and> jnt_array st' = q
         \<and> cam_frame st' = frame_Inverse lib c
         \<and> mesh_names st' = mesh_names st
         \<and> (\<forall>nm\<in>set (mesh_names st). \<forall>f.
               nm \<in> seg_name ` set (segment_map st) \<and> fk_pose lib q nm = Some f \<longrightarrow>
               frame_map st' nm = Some (frame_mult lib (frame_Inverse lib c) f))"
    using res poses by (intro exI [of _ ?st']) (simp add: ComputeLinkTransforms_loop_fields)
next
  assume "jnt_array st \<noteq> [] \<and> vec_isApprox lib (jnt_array st) q"
  then show "set_joint_angles lib st q = Inr st" by (simp add: set_joint_angles_noop)
qed

theorem set_joint_angles_link_poses_witness:
  "tree_solver_set slider \<and> jnt_array slider = []
   \<and> fk_pose (robot_lib 1) [1] (cam_frame_name slider) = Some (0, 0, 1)
   \<and> ''arm'' \<in> set (mesh_names slider) \<and> ''arm'' \<in> seg_name ` set (segment_map slider)
   \<and> fk_pose (robot_lib 1) [1] ''arm'' = Some (1, 0, 0)
   \<and> (\<exists>st'. set_joint_angles (robot_lib 1) slider [1] = Inr st'
          \<and> frame_map st' ''arm'' = Some (1, 0, - 1))
   \<and> jnt_array slider_at_1 \<noteq> []
   \<and> vec_isApprox (robot_lib 1) (jnt_array slider_at_1) [1 + 1 / 10 ^ 13]
   \<and> set_joint_angles (robot_lib 1) slider_at_1 [1 + 1 / 10 ^ 13] = Inr slider_at_1"
proof -
  have h: "tree_solver_set slider" "jnt_array slider = []"
    "fk_pose (robot_lib 1) [1] (cam_frame_name slider) = Some (0, 0, 1)"
    "''arm'' \<in> set (mesh_names slider)" "''arm'' \<in> seg_name ` set (segment_map slider)"
    "fk_pose (robot_lib 1) [1] ''arm'' = Some (1, 0, 0)"
    by (simp_all add: slider_def slider_built_def slider_tree_def robot_simps)
  have m: "frame_mult (robot_lib 1) (frame_Inverse (robot_lib 1) (0, 0, 1)) (1, 0, 0) = (1, 0, - 1)"
    by (simp add: robot_lib_def)
  have n: "jnt_array slider_at_1 \<noteq> []" by (simp add: slider_at_1_def)
  from set_joint_angles_link_poses [of slider "robot_lib 1" "[1]" "(0, 0, 1)"] h
  obtain st' where "set_joint_angles (robot_lib 1) slider [1] = Inr st'"
    "frame_map st' ''arm''
       = Some (frame_mult (robot_lib 1) (frame_Inverse (robot_lib 1) (0, 0, 1)) (1, 0, 0))"
    by blast
  then have one: "\<exists>st'. set_joint_angles (robot_lib 1) slider [1] = Inr st'
          \<and> frame_map st' ''arm'' = Some (1, 0, - 1)"
    using m by auto
  from set_joint_angles_link_poses [of slider_at_1 "robot_lib 1" "[1 + 1 / 10 ^ 13]"] n slider_nearly_1
  have two: "set_joint_angles (robot_lib 1) slider_at_1 [1 + 1 / 10 ^ 13] = Inr slider_at_1"
    by blast
  show ?thesis using h one n slider_nearly_1 two by blast
qed

text \<open>
  Claim C1 as it is stated fails for a vector that is approximately the cached one
  without being equal to it: the slider caches the angle 1, the call with
  \<open>1 + 1 / 10 ^ 13\<close> is a no-op, and the stored pose of the arm is not the one of the new
  angle.
\<close>

theorem set_joint_angles_keeps_cached_poses:
  "set_joint_angles (robot_lib 1) slider [1] = Inr slider_at_1
   \<and> set_joint_angles (robot_lib 1) slider_at_1 [1 + 1 / 10 ^ 13] = Inr slider_at_1
   \<and> ''arm'' \<in> set (mesh_names slider_at_1)
   \<and> fk_pose (robot_lib 1) [1 + 1 / 10 ^ 13] (cam_frame_name slider_at_1) = Some (0, 0, 1)
   \<and> fk_pose (robot_lib 1) [1 + 1 / 10 ^ 13] ''arm'' = Some (1 + 1 / 10 ^ 13, 0, 0)
   \<and> frame_map slider_at_1 ''arm''
       \<noteq> Some (frame_mult (robot_lib 1) (frame_Inverse (robot_lib 1) (0, 0, 1))
                 (1 + 1 / 10 ^ 13, 0, 0))"
proof -
  have "set_joint_angles (robot_lib 1) slider_at_1 [1 + 1 / 10 ^ 13] = Inr slider_at_1"
    using slider_nearly_1 by (simp add: set_joint_angles_def slider_at_1_def)
  moreover have "''arm'' \<in> set (mesh_names slider_at_1)"
    "fk_pose (robot_lib 1) [1 + 1 / 10 ^ 13] (cam_frame_name slider_at_1) = Some (0, 0, 1)"
    "fk_pose (robot_lib 1) [1 + 1 / 10 ^ 13] ''arm'' = Some (1 + 1 / 10 ^ 13, 0, 0)"
    "frame_map slider_at_1 ''arm''
       \<noteq> Some (frame_mult (robot_lib 1) (frame_Inverse (robot_lib 1) (0, 0, 1))
                 (1 + 1 / 10 ^ 13, 0, 0))"
    by (simp_all add: slider_at_1_def slider_def slider_built_def robot_simps)
  ultimately show ?thesis using slider_set_1 by blast
qed

text \<open>
  Claim C2, as the code has it. A call of \<open>set_joint_angles\<close> with a vector that is
  approximately the cached, non-empty one returns the object as it was: no member
  changes and the solver is not called. While the cached vector is empty, every call
  recomputes and calls the solver.
\<close>

theorem set_joint_angles_value_equal:
  "(jnt_array st \<noteq> [] \<and> vec_isApprox lib (jnt_array st) q \<longrightarrow>
      set_joint_angles lib st q = Inr st)
   \<and> (jnt_array st = [] \<and> tree_solver_set st \<longrightarrow>
        (\<exists>st'. set_joint_angles lib st q = Inr st'
           \<and> length (solver_calls st) < length (solver_calls st')))"
proof (intro conjI impI)
  assume "jnt_array st \<noteq> [] \<and> vec_isApprox lib (jnt_array st) q"
  then show "set_joint_angles lib st q = Inr st" by (simp add: set_joint_angles_def)
next
  assume a: "jnt_array st = [] \<and> tree_solver_set st"
  then show "\<exists>st'. set_joint_angles lib st q = Inr st'
           \<and> length (solver_calls st) < length (solver_calls st')"
    using set_joint_angles_recomputes [of st lib q]
    by (simp add: ComputeLinkTransforms_loop_calls)
qed

theorem set_joint_angles_value_equal_witness:
  "jnt_array slider_at_1 \<noteq> []
   \<and> vec_isApprox (robot_lib 1) (jnt_array slider_at_1) [1 + 1 / 10 ^ 13]
   \<and> set_joint_angles (robot_lib 1) slider_at_1 [1 + 1 / 10 ^ 13] = Inr slider_at_1
   \<and> jnt_array rigid = [] \<and> tree_solver_set rigid
   \<and> (\<exists>st'. set_joint_angles (robot_lib 0) rigid [] = Inr st'
          \<and> length (solver_calls rigid) < length (solver_calls st'))"
proof -
  have n: "jnt_array slider_at_1 \<noteq> []" by (simp add: slider_at_1_def)
  have r: "jnt_array rigid = []" "tree_solver_set rigid" by (simp_all add: rigid_def)
  from set_joint_angles_value_equal [of slider_at_1 "robot_lib 1" "[1 + 1 / 10 ^ 13]"] n slider_nearly_1
  have one: "set_joint_angles (robot_lib 1) slider_at_1 [1 + 1 / 10 ^ 13] = Inr slider_at_1"
    by blast
  from set_joint_angles_value_equal [of rigid "robot_lib 0" "[]"] r
  have two: "\<exists>st'. set_joint_angles (robot_lib 0) rigid [] = Inr st'
          \<and> length (solver_calls rigid) < length (solver_calls st')"
    by blast
  show ?thesis using n slider_nearly_1 one r two by blast
qed

text \<open>
  Claim C2 as it is stated fails for the robot without joints: the empty vector is
  cached, the second call with the empty vector, equal to it, runs the solver again.
\<close>

theorem set_joint_angles_empty_vector_reruns:
  "set_joint_angles (robot_lib 0) rigid [] = Inr rigid_at_rest
   \<and> vec_isApprox (robot_lib 0) (jnt_array rigid_at_rest) []
   \<and> set_joint_angles (robot_lib 0) rigid_at_rest []
       = Inr (rigid_at_rest\<lparr> solver_calls :=
                [([], ''camera''), ([], ''arm''), ([], ''camera''), ([], ''arm'')] \<rparr>)
   \<and> set_joint_angles (robot_lib 0) rigid_at_rest [] \<noteq> Inr rigid_at_rest"
proof -
  have a: "vec_isApprox (robot_lib 0) (jnt_array rigid_at_rest) []"
    by (simp add: rigid_at_rest_def rigid_def robot_simps)
  have b: "set_joint_angles (robot_lib 0) rigid_at_rest []
       = Inr (rigid_at_rest\<lparr> solver_calls :=
                [([], ''camera''), ([], ''arm''), ([], ''camera''), ([], ''arm'')] \<rparr>)"
    by (simp add: set_joint_angles_def ComputeLinkTransforms_def JntToCart_def rigid_def
        rigid_at_rest_def rigid_tree_def robot_simps)
  have c: "solver_calls (rigid_at_rest\<lparr> solver_calls :=
                [([], ''camera''), ([], ''arm''), ([], ''camera''), ([], ''arm'')] \<rparr>)
             \<noteq> solver_calls rigid_at_rest"
    by (simp add: rigid_at_rest_def)
  have "set_joint_angles (robot_lib 0) rigid_at_rest [] \<noteq> Inr rigid_at_rest"
    unfolding b using c by (metis sum.inject(2))
  with rigid_set a b show ?thesis by blast
qed

subsection \<open>Link poses before any forward kinematics\<close>

lemma frame_map_at_default:
  assumes "frame_map st key = None \<or> frame_map st key = Some (frame_Identity lib)"
  shows "frame_map_at lib st key
           = (st\<lparr> frame_map := (frame_map st)(key \<mapsto> frame_Identity lib) \<rparr>, frame_Identity lib)"
proof (cases "frame_map st key")
  case None
  then show ?thesis by (simp add: frame_map_at_def)
next
  case (Some f)
  with assms have "(frame_map st)(key \<mapsto> frame_Identity lib) = frame_map st"
    by (auto simp: fun_upd_idem_iff)
  with Some assms show ?thesis by (simp add: frame_map_at_def)
qed

text \<open>
  Claim C10. For a valid link index whose name has no pose in the map yet, or the
  default frame a former query inserted, as before any \<open>set_joint_angles\<close>, the three
  queries do not fail: the map gets the default frame under the name, and with the
  identity frame of the library at the origin and with the identity quaternion, the
  position returned is \<open>(0, 0, 0)\<close> and the orientation \<open>(0, 0, 0, 1)\<close>.
\<close>

theorem get_link_pose_default_frame:
  assumes idx: "0 \<le> idx" "nat idx < length (mesh_names st)"
    and fresh: "frame_map st (mesh_names st ! nat idx) = None
                \<or> frame_map st (mesh_names st ! nat idx) = Some (frame_Identity lib)"
    and ident: "frame_p lib (frame_Identity lib) = (0, 0, 0)"
      "frame_GetQuaternion lib (frame_Identity lib) = (0, 0, 0, 1)"
  shows "get_link_position lib st idx
           = Inr (st\<lparr> frame_map := (frame_map st)(mesh_names st ! nat idx \<mapsto> frame_Identity lib) \<rparr>,
                  [0, 0, 0])
       \<and> get_link_orientation lib st idx
           = Inr (st\<lparr> frame_map := (frame_map st)(mesh_names st ! nat idx \<mapsto> frame_Identity lib) \<rparr>,
                  (0, 0, 0, 1))
       \<and> get_link_pose lib st idx
           = Inr (st\<lparr> frame_map := (frame_map st)(mesh_names st ! nat idx \<mapsto> frame_Identity lib) \<rparr>,
                  \<lparr> pv_orientation = (0, 0, 0, 1), pv_position = [0, 0, 0] \<rparr>)"
proof -
  let ?nm = "mesh_names st ! nat idx"
  let ?st = "st\<lparr> frame_map := (frame_map st)(?nm \<mapsto> frame_Identity lib) \<rparr>"
  have at: "vector_at (mesh_names st) idx = Inr ?nm" using idx by (simp add: vector_at_def)
  have pos: "get_link_position lib st idx = Inr (?st, [0, 0, 0])"
    by (simp add: get_link_position_def at frame_map_at_default [OF fresh] ident)
  have ori: "get_link_orientation lib st idx = Inr (?st, (0, 0, 0, 1))"
    by (simp add: get_link_orientation_def at frame_map_at_default [OF fresh] ident)
  have at': "vector_at (mesh_names ?st) idx = Inr ?nm" using idx by (simp add: vector_at_def)
  have again: "frame_map_at lib ?st ?nm = (?st, frame_Identity lib)"
    by (simp add: frame_map_at_def)
  have pos': "get_link_position lib ?st idx = Inr (?st, [0, 0, 0])"
    unfolding get_link_position_def at' using again ident by simp
  have pose: "get_link_pose lib st idx
           = Inr (?st, \<lparr> pv_orientation = (0, 0, 0, 1), pv_position = [0, 0, 0] \<rparr>)"
    by (simp add: get_link_pose_def ori pos')
  show ?thesis using pos ori pose by simp
qed

theorem get_link_pose_default_frame_witness:
  "(0::int) \<le> 0 \<and> nat 0 < length (mesh_names slider)
   \<and> frame_map slider (mesh_names slider ! nat 0) = None
   \<and> frame_p (robot_lib 1) (frame_Identity (robot_lib 1)) = (0, 0, 0)
   \<and> frame_GetQuaternion (robot_lib 1) (frame_Identity (robot_lib 1)) = (0, 0, 0, 1)
   \<and> get_link_position (robot_lib 1) slider 0
       = Inr (slider\<lparr> frame_map := [''arm'' \<mapsto> (0, 0, 0)] \<rparr>, [0, 0, 0])
   \<and> get_link_pose (robot_lib 1) slider 0
       = Inr (slider\<lparr> frame_map := [''arm'' \<mapsto> (0, 0, 0)] \<rparr>,
              \<lparr> pv_orientation = (0, 0, 0, 1), pv_position = [0, 0, 0] \<rparr>)"
proof -
  have h: "(0::int) \<le> 0" "nat 0 < length (mesh_names slider)"
    "frame_map slider (mesh_names slider ! nat 0) = None"
    "frame_p (robot_lib 1) (frame_Identity (robot_lib 1)) = (0, 0, 0)"
    "frame_GetQuaternion (robot_lib 1) (frame_Identity (robot_lib 1)) = (0, 0, 0, 1)"
    by (simp_all add: slider_def slider_built_def robot_lib_def)
  have m: "(frame_map slider)(mesh_names slider ! nat 0 \<mapsto> frame_Identity (robot_lib 1))
             = [''arm'' \<mapsto> (0, 0, 0)]"
    by (simp add: slider_def slider_built_def robot_lib_def)
  from get_link_pose_default_frame [of 0 slider "robot_lib 1"] h
  show ?thesis unfolding m by simp
qed

subsection \<open>What the constructor establishes and the other operations keep\<close>

text \<open>
  The properties of \<open>GetInitialJoints\<close> above assume that \<open>joint_map_\<close> is no longer
  than \<open>num_joints()\<close>. The constructor leaves it so, with both limit vectors of the
  same length, no vector cached and an empty pose map; \<open>get_part_meshes\<close> and
  \<open>set_joint_angles\<close> change neither \<open>joint_map_\<close> nor the tree.
\<close>

lemma KinematicsFromURDF_loop_length:
  "KinematicsFromURDF_loop u segs (jm, lo, up) = Inr (jm', lo', up') \<Longrightarrow>
     length jm' = length jm \<and> length lo' = length lo \<and> length up' = length up"
proof (induction segs arbitrary: jm lo up)
  case Nil
  then show ?case by simp
next
  case (Cons seg segs)
  from Cons.prems show ?case
    by (auto split: if_splits option.splits dest!: Cons.IH)
qed

lemma KinematicsFromURDF_ctor_lengths:
  assumes "KinematicsFromURDF_ctor lib u tree_ok tree left right camera_frame_id = Inr st"
  shows "length (joint_map st) \<le> num_joints st \<and> length (lower_limit st) = length (joint_map st)
         \<and> length (upper_limit st) = length (joint_map st)
         \<and> jnt_array st = [] \<and> frame_map st = Map.empty"
proof (cases tree_ok)
  case False
  with assms show ?thesis
    by (auto simp: KinematicsFromURDF_ctor_def initial_members_def num_joints_def)
next
  case True
  with assms obtain jm lo up where
    loop: "KinematicsFromURDF_loop u (segments tree)
             (replicate (nrOfJoints tree) [], replicate (nrOfJoints tree) (Finite 0), replicate (nrOfJoints tree) (Finite 0))
             = Inr (jm, lo, up)"
    and st: "st = (initial_members lib u tree left right camera_frame_id)
                    \<lparr> segment_map := segments tree, joint_map := jm, lower_limit := lo,
                      upper_limit := up, tree_solver_set := True \<rparr>"
    by (auto simp: KinematicsFromURDF_ctor_def Let_def split: sum.splits)
  from KinematicsFromURDF_loop_length [OF loop] show ?thesis
    by (simp add: st initial_members_def num_joints_def)
qed

lemma get_part_meshes_keeps:
  "get_part_meshes st part_meshes = Inr (st', part_meshes') \<Longrightarrow>
     joint_map st' = joint_map st \<and> kin_tree st' = kin_tree st \<and> frame_map st' = frame_map st
     \<and> jnt_array st' = jnt_array st"
  by (auto simp: get_part_meshes_def split: sum.splits)

lemma set_joint_angles_keeps:
  assumes "set_joint_angles lib st q = Inr st'"
  shows "joint_map st' = joint_map st \<and> kin_tree st' = kin_tree st \<and> mesh_names st' = mesh_names st"
proof (cases "jnt_array st = [] \<or> \<not> vec_isApprox lib (jnt_array st) q")
  case False
  with assms show ?thesis by (simp add: set_joint_angles_def)
next
  case True
  with assms have ts: "tree_solver_set st"
    by (auto simp: set_joint_angles_def ComputeLinkTransforms_def split: if_splits)
  let ?st0 = "st\<lparr> jnt_array := q,
                   cam_frame := frame_Inverse lib (snd (JntToCart lib q (cam_frame st) (cam_frame_name st))),
                   solver_calls := solver_calls st @ [(q, cam_frame_name st)] \<rparr>"
  from set_joint_angles_recomputes [OF ts True] assms
  have "st' = ComputeLinkTransforms_loop lib (segment_map st) ?st0" by simp
  with ComputeLinkTransforms_loop_shape [of lib "segment_map st" ?st0] show ?thesis by auto
qed

end
